theory Spec2Isabelle
  imports Complex_Main "HOL-Library.AList" "HOL-Library.Sublist"
begin

section \<open>JavaScript values\<close>

text \<open>
  The service handles values that come out of \<^verbatim>\<open>JSON.parse\<close> (the request body, the
  model's answer) and object literals it builds itself. A number is a double: a finite one
  is a rational, and the only thing the program asks of a number is whether it is truthy.
  An object is the list of its own enumerable properties in enumeration order; a JavaScript
  object holds each key once.
\<close>

datatype number = Finite rat | PosInfinity | NegInfinity | NaN

datatype jsval =
    JUndefined
  | JNull
  | JBool bool
  | JNum number
  | JStr string
  | JArr "jsval list"
  | JObj "(string \<times> jsval) list"

fun nullish :: "jsval \<Rightarrow> bool" where
  "nullish JUndefined = True"
| "nullish JNull = True"
| "nullish _ = False"

text \<open>\<^verbatim>\<open>!v\<close> is \<open>\<not> truthy v\<close>.\<close>

fun truthy :: "jsval \<Rightarrow> bool" where
  "truthy JUndefined = False"
| "truthy JNull = False"
| "truthy (JBool b) = b"
| "truthy (JNum (Finite q)) = (q \<noteq> 0)"
| "truthy (JNum NaN) = False"
| "truthy (JNum _) = True"
| "truthy (JStr s) = (s \<noteq> [])"
| "truthy (JArr _) = True"
| "truthy (JObj _) = True"

fun is_number :: "jsval \<Rightarrow> bool" where
  "is_number (JNum _) = True"
| "is_number _ = False"

text \<open>The decimal name of an array index, as a property key.\<close>

fun index_key :: "nat \<Rightarrow> string" where
  "index_key n =
     (if n < 10 then [char_of (48 + n)]
      else index_key (n div 10) @ [char_of (48 + n mod 10)])"

declare index_key.simps [simp del]

text \<open>
  The own enumerable properties of a value, which is what the spread \<^verbatim>\<open>{...v}\<close> copies:
  the entries of an object, the indexed elements of an array, the indexed characters of a
  string, and nothing for the other values.
\<close>

fun own :: "jsval \<Rightarrow> (string \<times> jsval) list" where
  "own (JObj kvs) = kvs"
| "own (JArr xs) = zip (map index_key [0..<length xs]) xs"
| "own (JStr s) = zip (map index_key [0..<length s]) (map (\<lambda>c. JStr [c]) s)"
| "own _ = []"

text \<open>
  Reading a named property \<^verbatim>\<open>v.k\<close> of a value that is neither \<^verbatim>\<open>undefined\<close> nor
  \<^verbatim>\<open>null\<close>. The program reads \<^verbatim>\<open>transactions\<close>, \<^verbatim>\<open>description\<close>, \<^verbatim>\<open>amount\<close>,
  \<^verbatim>\<open>date\<close>, \<^verbatim>\<open>category\<close>, \<^verbatim>\<open>categories\<close> and \<^verbatim>\<open>insights\<close> this way; no prototype
  has any of them, so only an object can hold one.
\<close>

fun field :: "jsval \<Rightarrow> string \<Rightarrow> jsval" where
  "field (JObj kvs) k = (case map_of kvs k of Some v \<Rightarrow> v | None \<Rightarrow> JUndefined)"
| "field _ k = JUndefined"

text \<open>
  A thrown error is identified with its \<^verbatim>\<open>message\<close>, the only thing the handlers read.
  The messages of the engine's own \<^verbatim>\<open>TypeError\<close>s are V8's.
\<close>

definition cannot_read :: "jsval \<Rightarrow> string \<Rightarrow> string" where
  "cannot_read v k =
     ''Cannot read properties of '' @ (if v = JNull then ''null'' else ''undefined'') @
     '' (reading '' @ [CHR 0x27] @ k @ [CHR 0x27] @ '')''"

definition not_a_function :: "string \<Rightarrow> string" where
  "not_a_function e = e @ '' is not a function''"

text \<open>\<^verbatim>\<open>o.k = v\<close> on an object: an existing key keeps its place, a new one goes last.\<close>

fun assign :: "jsval \<Rightarrow> string \<Rightarrow> jsval \<Rightarrow> jsval" where
  "assign (JObj kvs) k v = JObj (AList.update k v kvs)"
| "assign w k v = w"

text \<open>\<^verbatim>\<open>xs.map(f)\<close> where \<open>f\<close> may throw: the first throw ends the loop.\<close>

primrec map_throwing :: "('a \<Rightarrow> string + 'b) \<Rightarrow> 'a list \<Rightarrow> string + 'b list" where
  "map_throwing f [] = Inr []"
| "map_throwing f (x # xs) =
     (case f x of
        Inl e \<Rightarrow> Inl e
      | Inr y \<Rightarrow> (case map_throwing f xs of Inl e \<Rightarrow> Inl e | Inr ys \<Rightarrow> Inr (y # ys)))"

text \<open>\<^verbatim>\<open>s.includes(sub)\<close> on strings.\<close>

definition str_includes :: "string \<Rightarrow> string \<Rightarrow> bool" where
  "str_includes s sub = sublist sub s"

section \<open>The taxonomy (claudeService.js, lines 7-26)\<close>

definition VALID_CATEGORIES :: "string list" where
  "VALID_CATEGORIES =
     [''Groceries'', ''Dining & Takeout'', ''Transport'', ''Housing'', ''Utilities'',
      ''Banking & Fees'', ''Insurance'', ''Subscriptions'', ''Shopping'', ''Travel'',
      ''Healthcare'', ''Entertainment'', ''Education'', ''Pets'', ''Income'', ''Refunds'',
      ''Other'']"

text \<open>\<^verbatim>\<open>VALID_CATEGORIES.includes(v)\<close>: only a string can be equal to a label.\<close>

fun valid_category :: "jsval \<Rightarrow> bool" where
  "valid_category (JStr s) = (s \<in> set VALID_CATEGORIES)"
| "valid_category _ = False"

section \<open>Locating the JSON text: the match of \<^verbatim>\<open>/\{[\s\S]*\}/\<close>\<close>

text \<open>
  \<open>upto_last_close cs\<close> is what \<^verbatim>\<open>[\s\S]*\}\<close> matches at the start of \<open>cs\<close>: the star is
  greedy, so it takes a further character whenever the rest can still be matched, and only
  otherwise closes at a brace. \<open>jsonMatch\<close> tries the start positions from the left, as
  \<^verbatim>\<open>String.prototype.match\<close> does; \<open>None\<close> is the \<^verbatim>\<open>null\<close> of no match.
\<close>

fun upto_last_close :: "string \<Rightarrow> string option" where
  "upto_last_close [] = None"
| "upto_last_close (c # cs) =
     (case upto_last_close cs of
        Some m \<Rightarrow> Some (c # m)
      | None \<Rightarrow> if c = CHR ''}'' then Some [c] else None)"

fun jsonMatch :: "string \<Rightarrow> string option" where
  "jsonMatch [] = None"
| "jsonMatch (c # cs) =
     (if c = CHR ''{''
      then (case upto_last_close cs of Some m \<Rightarrow> Some (c # m) | None \<Rightarrow> jsonMatch cs)
      else jsonMatch cs)"

section \<open>The provider's answer\<close>

text \<open>
  \<^verbatim>\<open>anthropic.messages.create\<close> either rejects with an error (its message) or resolves to a
  message whose \<^verbatim>\<open>content\<close> is a list of blocks; only a text block has a \<^verbatim>\<open>text\<close>. What
  the provider answers is an input of the model, as is \<^verbatim>\<open>JSON.parse\<close>, which returns a
  value or throws a \<^verbatim>\<open>SyntaxError\<close> (\<open>Inl\<close> its message). The prompt that the entry
  points build before the call (lines 34-74 and 153-201) goes to the provider and nowhere
  else.
\<close>

datatype content_block = TextBlock string | OtherBlock

datatype api_result = Rejected string | Resolved "content_block list"

type_synonym json_parse = "string \<Rightarrow> string + jsval"

fun block_text :: "content_block \<Rightarrow> string option" where
  "block_text (TextBlock s) = Some s"
| "block_text OtherBlock = None"

section \<open>Validation and repair (claudeService.js, lines 121-134 and 256-269)\<close>

text \<open>One element of \<^verbatim>\<open>result.categories.map(cat => ({...cat, category: ...}))\<close>.\<close>

definition revalidate :: "jsval \<Rightarrow> string + jsval" where
  "revalidate cat =
     (if nullish cat then Inl (cannot_read cat ''category'')
      else Inr (JObj (AList.update ''category''
                 (if valid_category (field cat ''category'') then field cat ''category''
                  else JStr ''Other'')
                 (own cat))))"

definition validate_categories :: "jsval \<Rightarrow> string + jsval" where
  "validate_categories result =
     (if nullish result then Inl (cannot_read result ''categories'')
      else case field result ''categories'' of
             JArr cats \<Rightarrow>
               (case map_throwing revalidate cats of
                  Inl e \<Rightarrow> Inl e
                | Inr cats' \<Rightarrow> Inr (assign result ''categories'' (JArr cats')))
           | JUndefined \<Rightarrow> Inl (cannot_read JUndefined ''map'')
           | JNull \<Rightarrow> Inl (cannot_read JNull ''map'')
           | _ \<Rightarrow> Inl (not_a_function ''result.categories.map''))"

definition generic_insights :: "jsval list" where
  "generic_insights =
     [JStr ''Upload more months to see personalized spending insights'',
      JStr ''Track your largest expense categories to identify savings opportunities'',
      JStr ''Set a savings goal to reduce spending in specific categories'']"

definition ensure_insights :: "jsval \<Rightarrow> jsval" where
  "ensure_insights result =
     (if (case field result ''insights'' of JArr xs \<Rightarrow> length xs < 3 | _ \<Rightarrow> True)
      then assign result ''insights'' (JArr generic_insights)
      else result)"

definition validate_and_repair :: "jsval \<Rightarrow> string + jsval" where
  "validate_and_repair result =
     (case validate_categories result of
        Inl e \<Rightarrow> Inl e
      | Inr r \<Rightarrow> Inr (ensure_insights r))"

section \<open>Text mode: \<^verbatim>\<open>categorizeTransactions\<close> (claudeService.js, lines 33-145)\<close>

text \<open>The body of the inner \<^verbatim>\<open>try\<close> (lines 93-100); \<open>None\<close> is a \<^verbatim>\<open>responseText\<close> that is \<^verbatim>\<open>undefined\<close>.\<close>

definition extractJson :: "json_parse \<Rightarrow> string option \<Rightarrow> string + jsval" where
  "extractJson parse responseText =
     (case responseText of
        None \<Rightarrow> Inl (cannot_read JUndefined ''match'')
      | Some text \<Rightarrow>
          (case jsonMatch text of
             None \<Rightarrow> Inl ''No JSON found in response''
           | Some m \<Rightarrow> parse m))"

definition echo :: "jsval \<Rightarrow> string + jsval" where
  "echo t =
     (if nullish t then Inl (cannot_read t ''description'')
      else Inr (JObj [(''description'', field t ''description''),
                      (''amount'', field t ''amount''),
                      (''date'', field t ''date''),
                      (''category'', JStr ''Other'')]))"

definition text_fallback_insights :: "jsval list" where
  "text_fallback_insights =
     [JStr ''Unable to generate AI insights at this time'',
      JStr ''Your transactions have been categorized with default categories'',
      JStr ''Please try uploading again for AI-powered categorization'']"

definition text_fallback :: "jsval \<Rightarrow> string + jsval" where
  "text_fallback transactions =
     (case transactions of
        JArr ts \<Rightarrow>
          (case map_throwing echo ts of
             Inl e \<Rightarrow> Inl e
           | Inr cats \<Rightarrow>
               Inr (JObj [(''categories'', JArr cats),
                          (''insights'', JArr text_fallback_insights)]))
      | JUndefined \<Rightarrow> Inl (cannot_read JUndefined ''map'')
      | JNull \<Rightarrow> Inl (cannot_read JNull ''map'')
      | _ \<Rightarrow> Inl (not_a_function ''transactions.map''))"

text \<open>
  Lines 92-119: the inner \<^verbatim>\<open>try\<close> and its \<^verbatim>\<open>catch\<close>, which logs
  \<^verbatim>\<open>responseText.substring(0, 500)\<close> before it builds the fallback.
\<close>

definition text_result :: "json_parse \<Rightarrow> jsval \<Rightarrow> string option \<Rightarrow> string + jsval" where
  "text_result parse transactions responseText =
     (case extractJson parse responseText of
        Inr v \<Rightarrow> Inr v
      | Inl parseError \<Rightarrow>
          (case responseText of
             None \<Rightarrow> Inl (cannot_read JUndefined ''substring'')
           | Some text \<Rightarrow> text_fallback transactions))"

definition categorizeTransactions :: "json_parse \<Rightarrow> jsval \<Rightarrow> api_result \<Rightarrow> string + jsval" where
  "categorizeTransactions parse transactions api =
     (case (case api of
              Rejected cause \<Rightarrow> Inl cause
            | Resolved content \<Rightarrow>
                (case content of
                   [] \<Rightarrow> Inl (cannot_read JUndefined ''text'')
                 | block # _ \<Rightarrow>
                     (case text_result parse transactions (block_text block) of
                        Inl e \<Rightarrow> Inl e
                      | Inr result \<Rightarrow> validate_and_repair result))) of
        Inl message \<Rightarrow> Inl (''Categorization failed: '' @ message)
      | Inr result \<Rightarrow> Inr result)"

section \<open>Document mode: \<^verbatim>\<open>categorizePdfStatement\<close> (claudeService.js, lines 152-286)\<close>

definition pdf_fallback_insights :: "jsval list" where
  "pdf_fallback_insights =
     [JStr ''Unable to extract transactions from PDF at this time'',
      JStr ''Please ensure your PDF is a valid bank statement'',
      JStr ''Try uploading a CSV file instead for better results'']"

definition pdf_fallback :: "jsval" where
  "pdf_fallback =
     JObj [(''categories'', JArr []), (''insights'', JArr pdf_fallback_insights)]"

definition pdf_result :: "json_parse \<Rightarrow> string option \<Rightarrow> string + jsval" where
  "pdf_result parse responseText =
     (case extractJson parse responseText of
        Inr v \<Rightarrow> Inr v
      | Inl parseError \<Rightarrow>
          (case responseText of
             None \<Rightarrow> Inl (cannot_read JUndefined ''substring'')
           | Some text \<Rightarrow> Inr pdf_fallback))"

definition categorizePdfStatement :: "json_parse \<Rightarrow> string \<Rightarrow> api_result \<Rightarrow> string + jsval" where
  "categorizePdfStatement parse pdfBase64 api =
     (case (case api of
              Rejected cause \<Rightarrow> Inl cause
            | Resolved content \<Rightarrow>
                (case content of
                   [] \<Rightarrow> Inl (cannot_read JUndefined ''text'')
                 | block # _ \<Rightarrow>
                     (case pdf_result parse (block_text block) of
                        Inl e \<Rightarrow> Inl e
                      | Inr result \<Rightarrow> validate_and_repair result))) of
        Inl message \<Rightarrow>
          (if str_includes message ''invalid_pdf''
           then Inl ''Invalid PDF file. Please upload a valid bank statement PDF.''
           else Inl (''PDF processing failed: '' @ message))
      | Inr result \<Rightarrow> Inr result)"

section \<open>The second copy of \<^verbatim>\<open>categorizeTransactions\<close> (unnamed/part_000, lines 33-111)\<close>

text \<open>
  This file holds the same function without the inner \<^verbatim>\<open>try\<close>: a missing match throws
  (lines 85-87), \<^verbatim>\<open>JSON.parse\<close> throws by itself (line 89), and the outer \<^verbatim>\<open>catch\<close>
  rethrows both.
\<close>

definition categorizeTransactions_part_000 ::
  "json_parse \<Rightarrow> jsval \<Rightarrow> api_result \<Rightarrow> string + jsval" where
  "categorizeTransactions_part_000 parse transactions api =
     (case (case api of
              Rejected cause \<Rightarrow> Inl cause
            | Resolved content \<Rightarrow>
                (case content of
                   [] \<Rightarrow> Inl (cannot_read JUndefined ''text'')
                 | block # _ \<Rightarrow>
                     (case block_text block of
                        None \<Rightarrow> Inl (cannot_read JUndefined ''match'')
                      | Some text \<Rightarrow>
                          (case jsonMatch text of
                             None \<Rightarrow> Inl ''Failed to parse Claude response as JSON''
                           | Some m \<Rightarrow>
                               (case parse m of
                                  Inl e \<Rightarrow> Inl e
                                | Inr result \<Rightarrow> validate_and_repair result))))) of
        Inl message \<Rightarrow> Inl (''Categorization failed: '' @ message)
      | Inr result \<Rightarrow> Inr result)"

section \<open>The routes\<close>

record response =
  status :: nat
  json :: jsval

definition invalid_request :: "string \<Rightarrow> response" where
  "invalid_request msg =
     \<lparr>status = 400,
      json = JObj [(''error'', JStr ''Invalid request''), (''message'', JStr msg)]\<rparr>"

text \<open>\<^verbatim>\<open>error.message || 'An unexpected error occurred'\<close> in the handlers' \<^verbatim>\<open>catch\<close>.\<close>

definition server_error :: "string \<Rightarrow> string \<Rightarrow> response" where
  "server_error title message =
     \<lparr>status = 500,
      json = JObj [(''error'', JStr title),
                   (''message'',
                    JStr (if message = [] then ''An unexpected error occurred'' else message))]\<rparr>"

definition ok :: "jsval \<Rightarrow> response" where
  "ok result = \<lparr>status = 200, json = result\<rparr>"

definition cannot_destructure :: "jsval \<Rightarrow> string \<Rightarrow> string" where
  "cannot_destructure v k =
     ''Cannot destructure property '' @ [CHR 0x27] @ k @ [CHR 0x27] @ '' of '' @
     [CHR 0x27] @ ''req.body'' @ [CHR 0x27] @ '' as it is '' @
     (if v = JNull then ''null'' else ''undefined'') @ ''.''"

text \<open>
  What the validation of a handler ends in: it has sent a response, or control goes on to
  the call of the service with the value it passes.
\<close>

datatype 'a validation = Respond response | Proceed 'a

subsection \<open>\<^verbatim>\<open>POST /api/categorize\<close> (routes/categorize.js)\<close>

text \<open>The loop of lines 37-44: \<open>Inl\<close> is a throw, \<open>Some\<close> the response of an early return.\<close>

fun check_transactions :: "jsval list \<Rightarrow> string + response option" where
  "check_transactions [] = Inr None"
| "check_transactions (transaction # rest) =
     (if nullish transaction then Inl (cannot_read transaction ''description'')
      else if \<not> truthy (field transaction ''description'')
              \<or> \<not> is_number (field transaction ''amount'')
      then Inr (Some (invalid_request
             ''Each transaction must have description (string) and amount (number)''))
      else check_transactions rest)"

text \<open>Lines 12-44. Only an array is both truthy and an array (line 15).\<close>

definition validate_transactions :: "jsval \<Rightarrow> string + jsval validation" where
  "validate_transactions body =
     (if nullish body then Inl (cannot_destructure body ''transactions'')
      else case field body ''transactions'' of
             JArr ts \<Rightarrow>
               (if length ts = 0
                then Inr (Respond (invalid_request ''transactions array cannot be empty''))
                else if length ts > 1000
                then Inr (Respond (invalid_request
                       ''Maximum 1000 transactions allowed per request''))
                else (case check_transactions ts of
                        Inl e \<Rightarrow> Inl e
                      | Inr (Some r) \<Rightarrow> Inr (Respond r)
                      | Inr None \<Rightarrow> Inr (Proceed (JArr ts))))
           | _ \<Rightarrow> Inr (Respond (invalid_request ''transactions array is required'')))"

text \<open>The handler: \<open>api\<close> is what the provider answers if the service is called.\<close>

definition post_categorize :: "json_parse \<Rightarrow> jsval \<Rightarrow> api_result \<Rightarrow> response" where
  "post_categorize parse body api =
     (case validate_transactions body of
        Inl e \<Rightarrow> server_error ''Categorization failed'' e
      | Inr (Respond r) \<Rightarrow> r
      | Inr (Proceed transactions) \<Rightarrow>
          (case categorizeTransactions parse transactions api of
             Inr result \<Rightarrow> ok result
           | Inl e \<Rightarrow> server_error ''Categorization failed'' e))"

subsection \<open>\<^verbatim>\<open>POST /api/categorize-pdf\<close> (routes/categorizePdf.js)\<close>

text \<open>A character of the class \<^verbatim>\<open>[A-Za-z0-9+/=]\<close>.\<close>

definition base64_char :: "char \<Rightarrow> bool" where
  "base64_char c =
     (c \<in> set (''ABCDEFGHIJKLMNOPQRSTUVWXYZ'' @ ''abcdefghijklmnopqrstuvwxyz'' @
                ''0123456789'' @ ''+/=''))"

definition validate_pdf :: "jsval \<Rightarrow> string + string validation" where
  "validate_pdf body =
     (if nullish body then Inl (cannot_destructure body ''pdf'')
      else case field body ''pdf'' of
             JStr pdf \<Rightarrow>
               (if pdf = []
                then Inr (Respond (invalid_request ''pdf (base64 string) is required''))
                else if \<not> list_all base64_char pdf
                then Inr (Respond (invalid_request
                       ''pdf must be a valid base64 encoded string''))
                else Inr (Proceed pdf))
           | _ \<Rightarrow> Inr (Respond (invalid_request ''pdf (base64 string) is required'')))"

definition post_categorize_pdf :: "json_parse \<Rightarrow> jsval \<Rightarrow> api_result \<Rightarrow> response" where
  "post_categorize_pdf parse body api =
     (case validate_pdf body of
        Inl e \<Rightarrow> server_error ''PDF categorization failed'' e
      | Inr (Respond r) \<Rightarrow> r
      | Inr (Proceed pdf) \<Rightarrow>
          (case categorizePdfStatement parse pdf api of
             Inr result \<Rightarrow> ok result
           | Inl e \<Rightarrow> server_error ''PDF categorization failed'' e))"

section \<open>Notions the specification uses\<close>

text \<open>
  The region the extractor is said to select: the substring of \<open>text\<close> from its first
  opening brace to its last closing brace, when the second comes after the first.
\<close>

definition bracketed_region :: "string \<Rightarrow> string \<Rightarrow> bool" where
  "bracketed_region text m =
     (\<exists>i j. i < j \<and> j < length text
        \<and> text ! i = CHR ''{'' \<and> (\<forall>k<i. text ! k \<noteq> CHR ''{'')
        \<and> text ! j = CHR ''}'' \<and> (\<forall>k. j < k \<and> k < length text \<longrightarrow> text ! k \<noteq> CHR ''}'')
        \<and> m = take (j + 1 - i) (drop i text))"

text \<open>
  A result that is already valid: every category is a label of the taxonomy and the
  insights are an array of at least three elements.
\<close>

definition already_valid :: "jsval \<Rightarrow> bool" where
  "already_valid result =
     (case result of
        JObj kvs \<Rightarrow>
          (case field result ''categories'' of
             JArr cats \<Rightarrow>
               list_all (\<lambda>cat. valid_category (field cat ''category'')) cats
               \<and> (case field result ''insights'' of JArr xs \<Rightarrow> 3 \<le> length xs | _ \<Rightarrow> False)
           | _ \<Rightarrow> False)
      | _ \<Rightarrow> False)"

text \<open>The test of line 38 of routes/categorize.js on one transaction.\<close>

definition unacceptable :: "jsval \<Rightarrow> bool" where
  "unacceptable transaction =
     (\<not> truthy (field transaction ''description'') \<or> \<not> is_number (field transaction ''amount''))"

section \<open>Example data\<close>

text \<open>
  The theorems below hold for every \<^verbatim>\<open>JSON.parse\<close>. The examples need one: \<open>parse_examples\<close>
  returns what \<^verbatim>\<open>JSON.parse\<close> returns on the four documents of this section and throws on
  every other text.
\<close>

definition example_transactions :: "jsval" where
  "example_transactions =
     JArr [JObj [(''description'', JStr ''Tesco''), (''amount'', JNum (Finite (- 25)))],
           JObj [(''description'', JStr ''Salary''), (''amount'', JNum (Finite 3000)),
                 (''date'', JStr ''01-02-2025'')]]"

definition relabelled_json :: "string" where
  \<open>relabelled_json =
     ''{"categories":[{"description":"Tesco","category":"Foodstuffs"}],"insights":["One"]}''\<close>

definition relabelled_value :: "jsval" where
  "relabelled_value =
     JObj [(''categories'',
            JArr [JObj [(''description'', JStr ''Tesco''), (''category'', JStr ''Foodstuffs'')]]),
           (''insights'', JArr [JStr ''One''])]"

definition relabelled_result :: "jsval" where
  "relabelled_result =
     JObj [(''categories'',
            JArr [JObj [(''description'', JStr ''Tesco''), (''category'', JStr ''Other'')]]),
           (''insights'', JArr generic_insights)]"

definition mixed_json :: "string" where
  \<open>mixed_json =
     ''{"categories":[{"description":"Tesco","category":"Groceries"},{"description":"Gym","category":"groceries"}],"insights":["a","b","c"]}''\<close>

definition mixed_value :: "jsval" where
  "mixed_value =
     JObj [(''categories'',
            JArr [JObj [(''description'', JStr ''Tesco''), (''category'', JStr ''Groceries'')],
                  JObj [(''description'', JStr ''Gym''), (''category'', JStr ''groceries'')]]),
           (''insights'', JArr [JStr ''a'', JStr ''b'', JStr ''c''])]"

definition mixed_result :: "jsval" where
  "mixed_result =
     JObj [(''categories'',
            JArr [JObj [(''description'', JStr ''Tesco''), (''category'', JStr ''Groceries'')],
                  JObj [(''description'', JStr ''Gym''), (''category'', JStr ''Other'')]]),
           (''insights'', JArr [JStr ''a'', JStr ''b'', JStr ''c''])]"

definition shapeless_json :: "string" where
  \<open>shapeless_json = ''{"insights":["a","b","c"]}''\<close>

definition shapeless_value :: "jsval" where
  "shapeless_value = JObj [(''insights'', JArr [JStr ''a'', JStr ''b'', JStr ''c''])]"

definition null_element_json :: "string" where
  \<open>null_element_json = ''{"categories":[null],"insights":[]}''\<close>

definition null_element_value :: "jsval" where
  "null_element_value = JObj [(''categories'', JArr [JNull]), (''insights'', JArr [])]"

definition parse_examples :: "json_parse" where
  "parse_examples s =
     (if s = relabelled_json then Inr relabelled_value
      else if s = mixed_json then Inr mixed_value
      else if s = shapeless_json then Inr shapeless_value
      else if s = null_element_json then Inr null_element_value
      else Inl ''Unexpected token'')"

lemmas example_defs =
  example_transactions_def relabelled_json_def relabelled_value_def relabelled_result_def
  mixed_json_def mixed_value_def mixed_result_def
  shapeless_json_def shapeless_value_def null_element_json_def null_element_value_def
  parse_examples_def

lemmas service_defs =
  categorizeTransactions_def categorizePdfStatement_def text_result_def pdf_result_def
  extractJson_def validate_and_repair_def validate_categories_def ensure_insights_def
  revalidate_def text_fallback_def echo_def pdf_fallback_def generic_insights_def
  text_fallback_insights_def pdf_fallback_insights_def cannot_read_def not_a_function_def VALID_CATEGORIES_def

section \<open>Facts about the helpers\<close>

lemma map_throwing_Inr:
  "map_throwing f xs = Inr ys \<longleftrightarrow> list_all2 (\<lambda>x y. f x = Inr y) xs ys"
proof (induction xs arbitrary: ys)
  case Nil
  show ?case by auto
next
  case (Cons a xs)
  show ?case
    by (auto split: sum.splits simp: list_all2_Cons1 Cons.IH [symmetric])
qed

lemma map_throwing_length: "map_throwing f xs = Inr ys \<Longrightarrow> length ys = length xs"
  by (simp add: map_throwing_Inr list_all2_lengthD)

lemma map_throwing_nth:
  "map_throwing f xs = Inr ys \<Longrightarrow> i < length xs \<Longrightarrow> f (xs ! i) = Inr (ys ! i)"
  using list_all2_nthD [of "\<lambda>x y. f x = Inr y" xs ys i] by (simp add: map_throwing_Inr)

lemma map_throwing_set:
  assumes "map_throwing f xs = Inr ys" and "y \<in> set ys"
  shows "\<exists>x\<in>set xs. f x = Inr y"
proof -
  from assms(2) obtain i where i: "i < length ys" "y = ys ! i"
    by (auto simp: in_set_conv_nth)
  with assms(1) have "i < length xs" by (simp add: map_throwing_length)
  with assms(1) i show ?thesis by (auto dest: map_throwing_nth)
qed

lemma map_throwing_total:
  "\<forall>x\<in>set xs. \<exists>y. f x = Inr y \<Longrightarrow> \<exists>ys. map_throwing f xs = Inr ys"
  by (induction xs) (auto split: sum.splits)

lemma map_throwing_fixed:
  "\<forall>x\<in>set xs. f x = Inr x \<Longrightarrow> map_throwing f xs = Inr xs"
  by (induction xs) (auto split: sum.splits)

lemma map_throwing_throws:
  "\<exists>x\<in>set xs. \<exists>e. f x = Inl e \<Longrightarrow> \<exists>e. map_throwing f xs = Inl e"
proof (induction xs)
  case Nil
  then show ?case by simp
next
  case (Cons a xs)
  show ?case
  proof (cases "f a")
    case (Inl e)
    then show ?thesis by simp
  next
    case (Inr y)
    with Cons.prems have "\<exists>x\<in>set xs. \<exists>e. f x = Inl e" by auto
    then obtain e where "map_throwing f xs = Inl e" using Cons.IH by blast
    with Inr show ?thesis by simp
  qed
qed

lemma field_update_same: "field (JObj (AList.update k v kvs)) k = v"
  by (simp add: update_conv')

lemma field_update_other:
  "k' \<noteq> k \<Longrightarrow> field (JObj (AList.update k v kvs)) k' = field (JObj kvs) k'"
  by (simp add: update_conv')

lemma Other_valid: "''Other'' \<in> set VALID_CATEGORIES"
  by (simp add: VALID_CATEGORIES_def)

lemma valid_category_iff:
  "valid_category v \<longleftrightarrow> (\<exists>s. v = JStr s \<and> s \<in> set VALID_CATEGORIES)"
  by (cases v) auto

section \<open>Facts about validation and repair\<close>

lemma revalidate_Inr:
  "revalidate cat = Inr cat' \<longleftrightarrow>
     \<not> nullish cat \<and>
     cat' = JObj (AList.update ''category''
                   (if valid_category (field cat ''category'') then field cat ''category''
                    else JStr ''Other'') (own cat))"
  by (auto simp: revalidate_def)

lemma revalidate_Inl:
  "revalidate cat = Inl e \<longleftrightarrow> nullish cat \<and> e = cannot_read cat ''category''"
  by (auto simp: revalidate_def)

lemma revalidate_category:
  "revalidate cat = Inr cat' \<Longrightarrow>
     field cat' ''category'' =
       (if valid_category (field cat ''category'') then field cat ''category''
        else JStr ''Other'')"
  by (simp add: revalidate_Inr field_update_same del: field.simps)

lemma revalidate_valid:
  "revalidate cat = Inr cat' \<Longrightarrow> valid_category (field cat' ''category'')"
  by (simp add: revalidate_category Other_valid)

lemma validate_categories_Inr:
  "validate_categories result = Inr r \<longleftrightarrow>
     (\<exists>kvs cats cats'. result = JObj kvs \<and> field result ''categories'' = JArr cats \<and>
        map_throwing revalidate cats = Inr cats' \<and>
        r = JObj (AList.update ''categories'' (JArr cats') kvs))"
  by (cases result)
     (auto simp: validate_categories_def split: jsval.splits sum.splits option.splits)

lemma ensure_insights_categories:
  "field (ensure_insights (JObj kvs)) ''categories'' = field (JObj kvs) ''categories''"
  by (simp add: ensure_insights_def update_conv' split: option.splits jsval.splits)

lemma ensure_insights_length:
  "\<exists>xs. field (ensure_insights (JObj kvs)) ''insights'' = JArr xs \<and> 3 \<le> length xs"
  by (auto simp: ensure_insights_def update_conv' generic_insights_def
           split: option.splits jsval.splits)

lemma validate_and_repair_Inr:
  "validate_and_repair v = Inr result \<longleftrightarrow>
     (\<exists>kvs cats cats'. v = JObj kvs \<and> field v ''categories'' = JArr cats \<and>
        map_throwing revalidate cats = Inr cats' \<and>
        result = ensure_insights (JObj (AList.update ''categories'' (JArr cats') kvs)))"
proof (cases "validate_categories v")
  case (Inl e)
  then show ?thesis
    using validate_categories_Inr [of v] by (auto simp: validate_and_repair_def)
next
  case (Inr r)
  then show ?thesis
    using validate_categories_Inr [of v r] by (auto simp: validate_and_repair_def)
qed

lemma repaired_categories:
  assumes "validate_and_repair v = Inr result"
  shows "\<exists>cats. field result ''categories'' = JArr cats \<and>
           (\<forall>c\<in>set cats. valid_category (field c ''category''))"
proof -
  from assms obtain kvs cats cats' where
    m: "map_throwing revalidate cats = Inr cats'" and
    r: "result = ensure_insights (JObj (AList.update ''categories'' (JArr cats') kvs))"
    by (auto simp: validate_and_repair_Inr)
  have "field result ''categories'' = JArr cats'"
    by (simp only: r ensure_insights_categories field_update_same)
  moreover have "valid_category (field c ''category'')" if "c \<in> set cats'" for c
    using map_throwing_set [OF m that] by (auto dest: revalidate_valid)
  ultimately show ?thesis by blast
qed

lemma repaired_insights:
  assumes "validate_and_repair v = Inr result"
  shows "\<exists>xs. field result ''insights'' = JArr xs \<and> 3 \<le> length xs"
  using assms by (auto simp: validate_and_repair_Inr ensure_insights_length simp del: field.simps)

lemma categorizeTransactions_Inr:
  "categorizeTransactions parse transactions api = Inr result \<Longrightarrow>
     \<exists>v. validate_and_repair v = Inr result"
  by (auto simp: categorizeTransactions_def split: api_result.splits list.splits sum.splits)

lemma categorizePdfStatement_Inr:
  "categorizePdfStatement parse pdf api = Inr result \<Longrightarrow>
     \<exists>v. validate_and_repair v = Inr result"
  by (auto simp: categorizePdfStatement_def
           split: api_result.splits list.splits sum.splits if_splits)

lemma text_parsed:
  assumes "jsonMatch text = Some m" "parse m = Inr v"
  shows "categorizeTransactions parse transactions (Resolved (TextBlock text # rest)) =
           (case validate_and_repair v of
              Inl e \<Rightarrow> Inl (''Categorization failed: '' @ e)
            | Inr r \<Rightarrow> Inr r)"
  using assms
  by (simp add: categorizeTransactions_def text_result_def extractJson_def split: sum.splits)

lemma pdf_parsed:
  assumes "jsonMatch text = Some m" "parse m = Inr v"
  shows "categorizePdfStatement parse pdf (Resolved (TextBlock text # rest)) =
           (case validate_and_repair v of
              Inl e \<Rightarrow>
                (if str_includes e ''invalid_pdf''
                 then Inl ''Invalid PDF file. Please upload a valid bank statement PDF.''
                 else Inl (''PDF processing failed: '' @ e))
            | Inr r \<Rightarrow> Inr r)"
  using assms
  by (simp add: categorizePdfStatement_def pdf_result_def extractJson_def split: sum.splits)

lemma field_array_obj: "field v k = JArr xs \<Longrightarrow> \<exists>kvs. v = JObj kvs"
  by (cases v) auto

lemma repaired_elementwise:
  assumes "validate_and_repair v = Inr result" and "field v ''categories'' = JArr cats"
  shows "\<exists>out. field result ''categories'' = JArr out \<and> length out = length cats \<and>
     (\<forall>i<length cats. field (out ! i) ''category'' =
        (if \<exists>s. field (cats ! i) ''category'' = JStr s \<and> s \<in> set VALID_CATEGORIES
         then field (cats ! i) ''category'' else JStr ''Other''))"
proof -
  from assms obtain kvs cats' where
    m: "map_throwing revalidate cats = Inr cats'" and
    r: "result = ensure_insights (JObj (AList.update ''categories'' (JArr cats') kvs))"
    by (auto simp: validate_and_repair_Inr simp del: field.simps)
  have f: "field result ''categories'' = JArr cats'"
    by (simp only: r ensure_insights_categories field_update_same)
  have l: "length cats' = length cats"
    using m by (rule map_throwing_length)
  have "field (cats' ! i) ''category'' =
        (if \<exists>s. field (cats ! i) ''category'' = JStr s \<and> s \<in> set VALID_CATEGORIES
         then field (cats ! i) ''category'' else JStr ''Other'')"
    if "i < length cats" for i
    using map_throwing_nth [OF m that]
    by (simp only: revalidate_category valid_category_iff)
  with f l show ?thesis by blast
qed

lemma repair_returns:
  assumes "field v ''categories'' = JArr cats" and "\<forall>c\<in>set cats. \<not> nullish c"
  shows "\<exists>result. validate_and_repair v = Inr result"
proof -
  from assms(1) obtain kvs where v: "v = JObj kvs" by (auto dest: field_array_obj)
  from assms(2) have "\<forall>c\<in>set cats. \<exists>y. revalidate c = Inr y"
    by (simp add: revalidate_Inr)
  then obtain out where "map_throwing revalidate cats = Inr out"
    using map_throwing_total by blast
  with v assms(1) show ?thesis
    by (simp add: validate_and_repair_Inr del: field.simps)
qed

section \<open>What the regular expression matches\<close>

lemma upto_last_close_None: "upto_last_close cs = None \<longleftrightarrow> CHR ''}'' \<notin> set cs"
  by (induction cs) (auto split: option.splits)

lemma upto_last_close_Some:
  "upto_last_close cs = Some m \<longleftrightarrow>
     (\<exists>post. cs = m @ post \<and> m \<noteq> [] \<and> last m = CHR ''}'' \<and> CHR ''}'' \<notin> set post)"
proof (induction cs arbitrary: m)
  case Nil
  show ?case by auto
next
  case (Cons c cs)
  show ?case
  proof (cases "upto_last_close cs")
    case None
    then have no: "CHR ''}'' \<notin> set cs" by (simp add: upto_last_close_None)
    show ?thesis
    proof
      assume "upto_last_close (c # cs) = Some m"
      with None have "c = CHR ''}''" "m = [c]" by (auto split: if_splits)
      with no show "\<exists>post. c # cs = m @ post \<and> m \<noteq> [] \<and> last m = CHR ''}'' \<and> CHR ''}'' \<notin> set post"
        by auto
    next
      assume "\<exists>post. c # cs = m @ post \<and> m \<noteq> [] \<and> last m = CHR ''}'' \<and> CHR ''}'' \<notin> set post"
      then obtain post where p: "c # cs = m @ post" "m \<noteq> []" "last m = CHR ''}''" "CHR ''}'' \<notin> set post"
        by blast
      from p(1,2) obtain m' where m: "m = c # m'" "cs = m' @ post" by (cases m) auto
      have "m' = []"
      proof (rule ccontr)
        assume "m' \<noteq> []"
        with p(3) m have "last m' = CHR ''}''" by simp
        with \<open>m' \<noteq> []\<close> have "CHR ''}'' \<in> set m'" using last_in_set by metis
        with m no show False by simp
      qed
      with p m None show "upto_last_close (c # cs) = Some m" by simp
    qed
  next
    case (Some m')
    with Cons.IH [of m'] obtain post' where
      q: "cs = m' @ post'" "m' \<noteq> []" "last m' = CHR ''}''" "CHR ''}'' \<notin> set post'"
      by blast
    show ?thesis
    proof
      assume "upto_last_close (c # cs) = Some m"
      with Some have "m = c # m'" by simp
      with q show "\<exists>post. c # cs = m @ post \<and> m \<noteq> [] \<and> last m = CHR ''}'' \<and> CHR ''}'' \<notin> set post"
        by auto
    next
      assume "\<exists>post. c # cs = m @ post \<and> m \<noteq> [] \<and> last m = CHR ''}'' \<and> CHR ''}'' \<notin> set post"
      then obtain post where p: "c # cs = m @ post" "m \<noteq> []" "last m = CHR ''}''" "CHR ''}'' \<notin> set post"
        by blast
      from p(1,2) obtain m2 where m: "m = c # m2" "cs = m2 @ post" by (cases m) auto
      have "m2 \<noteq> []"
      proof
        assume "m2 = []"
        with m p(4) have "CHR ''}'' \<notin> set cs" by simp
        with Some show False by (simp flip: upto_last_close_None)
      qed
      with p(3) m have "last m2 = CHR ''}''" by simp
      with m \<open>m2 \<noteq> []\<close> p(4) have "upto_last_close cs = Some m2"
        using Cons.IH [of m2] by blast
      with m show "upto_last_close (c # cs) = Some m" by simp
    qed
  qed
qed

lemma jsonMatch_no_close: "CHR ''}'' \<notin> set s \<Longrightarrow> jsonMatch s = None"
proof (induction s)
  case Nil
  show ?case by simp
next
  case (Cons c cs)
  then have "upto_last_close cs = None" by (simp add: upto_last_close_None)
  with Cons show ?case by simp
qed

lemma jsonMatch_Some:
  "jsonMatch s = Some m \<longleftrightarrow>
     (\<exists>pre mid post. s = pre @ m @ post \<and> m = CHR ''{'' # mid \<and> CHR ''{'' \<notin> set pre \<and>
        mid \<noteq> [] \<and> last mid = CHR ''}'' \<and> CHR ''}'' \<notin> set post)"
  (is "?L s \<longleftrightarrow> ?R s")
proof (induction s)
  case Nil
  show ?case by auto
next
  case (Cons c cs)
  show ?case
  proof (cases "c = CHR ''{''")
    case False
    have "?R (c # cs) \<longleftrightarrow> ?R cs"
    proof
      assume "?R (c # cs)"
      then obtain pre mid post where
        p: "c # cs = pre @ m @ post" "m = CHR ''{'' # mid" "CHR ''{'' \<notin> set pre"
           "mid \<noteq> []" "last mid = CHR ''}''" "CHR ''}'' \<notin> set post"
        by blast
      with False obtain pre' where "pre = c # pre'" by (cases pre) auto
      with p show "?R cs" by auto
    next
      assume "?R cs"
      then obtain pre mid post where
        p: "cs = pre @ m @ post" "m = CHR ''{'' # mid" "CHR ''{'' \<notin> set pre"
           "mid \<noteq> []" "last mid = CHR ''}''" "CHR ''}'' \<notin> set post"
        by blast
      with False have "c # cs = (c # pre) @ m @ post \<and> CHR ''{'' \<notin> set (c # pre)" by auto
      with p show "?R (c # cs)" by blast
    qed
    with False Cons.IH show ?thesis by simp
  next
    case True
    have R: "?R (c # cs) \<longleftrightarrow> (\<exists>mid. m = c # mid \<and> upto_last_close cs = Some mid)"
    proof
      assume "?R (c # cs)"
      then obtain pre mid post where
        p: "c # cs = pre @ m @ post" "m = CHR ''{'' # mid" "CHR ''{'' \<notin> set pre"
           "mid \<noteq> []" "last mid = CHR ''}''" "CHR ''}'' \<notin> set post"
        by blast
      with True have "pre = []" by (cases pre) auto
      with p True have "cs = mid @ post" by simp
      with p True show "\<exists>mid. m = c # mid \<and> upto_last_close cs = Some mid"
        by (auto simp: upto_last_close_Some)
    next
      assume "\<exists>mid. m = c # mid \<and> upto_last_close cs = Some mid"
      then obtain mid post where "m = c # mid" "cs = mid @ post" "mid \<noteq> []"
        "last mid = CHR ''}''" "CHR ''}'' \<notin> set post"
        by (auto simp: upto_last_close_Some)
      with True have "c # cs = [] @ m @ post \<and> m = CHR ''{'' # mid \<and> CHR ''{'' \<notin> set []" by simp
      with \<open>mid \<noteq> []\<close> \<open>last mid = CHR ''}''\<close> \<open>CHR ''}'' \<notin> set post\<close> show "?R (c # cs)" by blast
    qed
    show ?thesis
    proof (cases "upto_last_close cs")
      case None
      moreover from None have "jsonMatch cs = None"
        by (simp add: jsonMatch_no_close upto_last_close_None)
      ultimately have "jsonMatch (c # cs) = None"
        using True by simp
      with None R show ?thesis by simp
    next
      case (Some mid)
      with True R show ?thesis by auto
    qed
  qed
qed

lemma region_to_indices:
  assumes "s = pre @ m @ post" "m = a # mid" "a \<notin> set pre" "mid \<noteq> []" "last mid = b"
    "b \<notin> set post"
  shows "\<exists>i j. i < j \<and> j < length s \<and> s ! i = a \<and> (\<forall>k<i. s ! k \<noteq> a) \<and> s ! j = b \<and>
           (\<forall>k. j < k \<and> k < length s \<longrightarrow> s ! k \<noteq> b) \<and> m = take (j + 1 - i) (drop i s)"
proof (intro exI conjI)
  let ?i = "length pre" and ?j = "length pre + length mid"
  show "?i < ?j" using assms(4) by simp
  show "?j < length s" using assms(1,2) by simp
  show "s ! ?i = a" using assms(1,2) by (simp add: nth_append)
  show "\<forall>k<?i. s ! k \<noteq> a" using assms(1,3) by (auto simp: nth_append)
  show "s ! ?j = b"
    using assms(1,2,4,5) by (simp add: nth_append last_conv_nth)
  show "\<forall>k. ?j < k \<and> k < length s \<longrightarrow> s ! k \<noteq> b"
  proof (intro allI impI)
    fix k assume k: "?j < k \<and> k < length s"
    then have "s ! k = post ! (k - ?j - 1)" "k - ?j - 1 < length post"
      using assms(1,2) by (auto simp: nth_append)
    then show "s ! k \<noteq> b" using assms(6) by (metis nth_mem)
  qed
  show "m = take (?j + 1 - ?i) (drop ?i s)" using assms(1,2) by simp
qed

lemma indices_to_region:
  assumes "i < j" "j < length s" "s ! i = a" "\<forall>k<i. s ! k \<noteq> a" "s ! j = b"
    "\<forall>k. j < k \<and> k < length s \<longrightarrow> s ! k \<noteq> b" "m = take (j + 1 - i) (drop i s)"
  shows "\<exists>pre mid post. s = pre @ m @ post \<and> m = a # mid \<and> a \<notin> set pre \<and> mid \<noteq> [] \<and>
           last mid = b \<and> b \<notin> set post"
proof (intro exI conjI)
  let ?pre = "take i s" and ?mid = "take (j - i) (drop (Suc i) s)" and ?post = "drop (Suc j) s"
  have "drop (j + 1 - i) (drop i s) = ?post" using assms(1) by simp
  then have "drop i s = m @ ?post"
    using append_take_drop_id [of "j + 1 - i" "drop i s"] assms(7) by simp
  then show "s = ?pre @ m @ ?post"
    using append_take_drop_id [of i s] by simp
  have "drop i s = a # drop (Suc i) s"
    using assms(1,2,3) by (simp add: Cons_nth_drop_Suc [symmetric])
  then show m: "m = a # ?mid"
    using assms(1,7) by (simp add: Suc_diff_le)
  show "a \<notin> set ?pre"
    using assms(4) by (auto simp: in_set_conv_nth)
  show ne: "?mid \<noteq> []" using assms(1,2) by simp
  have len: "length ?mid = j - i" using assms(1,2) by simp
  have "last ?mid = ?mid ! (j - i - 1)" using ne len by (simp add: last_conv_nth)
  also have "\<dots> = s ! j" using assms(1,2) by simp
  finally show "last ?mid = b" using assms(5) by simp
  show "b \<notin> set ?post"
    using assms(6) by (auto simp: in_set_conv_nth)
qed

section \<open>The output contract\<close>

text \<open>
  Claim C2. Whenever either entry point returns a result, its \<^verbatim>\<open>categories\<close> is a list each
  of whose elements has a \<^verbatim>\<open>category\<close> that is a string of the taxonomy. When the response
  parses and an entry point returns, the returned list is the parsed list repaired element
  by element: same length, and at each index the category is the parsed one when that is a
  string equal to a label (equality of strings is exact, so case matters) and \<^verbatim>\<open>Other\<close>
  otherwise. Both entry points do return, with the same result, when no parsed element is
  \<^verbatim>\<open>null\<close>. The repair of one element follows the same rule. The taxonomy has 17 labels,
  all different.
\<close>

theorem categories_closed_under_repair:
  "(categorizeTransactions parse transactions api = Inr result
      \<or> categorizePdfStatement parse pdf api = Inr result \<longrightarrow>
      (\<exists>cats. field result ''categories'' = JArr cats \<and>
         (\<forall>c\<in>set cats. \<exists>s. field c ''category'' = JStr s \<and> s \<in> set VALID_CATEGORIES)))
   \<and> (jsonMatch response = Some m \<and> parse m = Inr v \<and> field v ''categories'' = JArr parsed
        \<and> (categorizeTransactions parse transactions (Resolved (TextBlock response # rest))
              = Inr repaired
            \<or> categorizePdfStatement parse pdf (Resolved (TextBlock response # rest))
              = Inr repaired) \<longrightarrow>
      (\<exists>out. field repaired ''categories'' = JArr out \<and> length out = length parsed \<and>
         (\<forall>i<length parsed. field (out ! i) ''category'' =
            (if \<exists>s. field (parsed ! i) ''category'' = JStr s \<and> s \<in> set VALID_CATEGORIES
             then field (parsed ! i) ''category'' else JStr ''Other''))))
   \<and> (jsonMatch response = Some m \<and> parse m = Inr v \<and> field v ''categories'' = JArr parsed
        \<and> (\<forall>c\<in>set parsed. \<not> nullish c) \<longrightarrow>
      (\<exists>r. categorizeTransactions parse transactions (Resolved (TextBlock response # rest))
              = Inr r
           \<and> categorizePdfStatement parse pdf (Resolved (TextBlock response # rest)) = Inr r))
   \<and> (revalidate cat = Inr cat' \<longrightarrow>
        field cat' ''category'' =
          (if \<exists>s. field cat ''category'' = JStr s \<and> s \<in> set VALID_CATEGORIES
           then field cat ''category'' else JStr ''Other''))
   \<and> length VALID_CATEGORIES = 17 \<and> distinct VALID_CATEGORIES"
proof (intro conjI impI)
  assume "categorizeTransactions parse transactions api = Inr result
      \<or> categorizePdfStatement parse pdf api = Inr result"
  then obtain v where "validate_and_repair v = Inr result"
    using categorizeTransactions_Inr categorizePdfStatement_Inr by blast
  then show "\<exists>cats. field result ''categories'' = JArr cats \<and>
         (\<forall>c\<in>set cats. \<exists>s. field c ''category'' = JStr s \<and> s \<in> set VALID_CATEGORIES)"
    using repaired_categories [of v result] by (simp only: valid_category_iff)
next
  assume a: "jsonMatch response = Some m \<and> parse m = Inr v \<and> field v ''categories'' = JArr parsed
        \<and> (categorizeTransactions parse transactions (Resolved (TextBlock response # rest))
              = Inr repaired
            \<or> categorizePdfStatement parse pdf (Resolved (TextBlock response # rest))
              = Inr repaired)"
  then have "validate_and_repair v = Inr repaired"
    by (auto simp: text_parsed pdf_parsed split: sum.splits if_splits)
  with a show "\<exists>out. field repaired ''categories'' = JArr out \<and> length out = length parsed \<and>
         (\<forall>i<length parsed. field (out ! i) ''category'' =
            (if \<exists>s. field (parsed ! i) ''category'' = JStr s \<and> s \<in> set VALID_CATEGORIES
             then field (parsed ! i) ''category'' else JStr ''Other''))"
    using repaired_elementwise by blast
next
  assume a: "jsonMatch response = Some m \<and> parse m = Inr v \<and> field v ''categories'' = JArr parsed
        \<and> (\<forall>c\<in>set parsed. \<not> nullish c)"
  then obtain r where "validate_and_repair v = Inr r"
    using repair_returns by blast
  with a have "categorizeTransactions parse transactions (Resolved (TextBlock response # rest))
              = Inr r
           \<and> categorizePdfStatement parse pdf (Resolved (TextBlock response # rest)) = Inr r"
    by (simp add: text_parsed pdf_parsed)
  then show "\<exists>r. categorizeTransactions parse transactions (Resolved (TextBlock response # rest))
              = Inr r
           \<and> categorizePdfStatement parse pdf (Resolved (TextBlock response # rest)) = Inr r"
    by blast
next
  assume "revalidate cat = Inr cat'"
  then show "field cat' ''category'' =
          (if \<exists>s. field cat ''category'' = JStr s \<and> s \<in> set VALID_CATEGORIES
           then field cat ''category'' else JStr ''Other'')"
    by (simp only: revalidate_category valid_category_iff)
next
  show "length VALID_CATEGORIES = 17" by (simp add: VALID_CATEGORIES_def)
  show "distinct VALID_CATEGORIES" by (simp add: VALID_CATEGORIES_def)
qed

lemma mixed_match: "jsonMatch (''Here: '' @ mixed_json @ '' Done.'') = Some mixed_json"
  by (simp add: mixed_json_def)

lemma mixed_text_run:
  "categorizeTransactions parse_examples example_transactions
     (Resolved [TextBlock (''Here: '' @ mixed_json @ '' Done.'')]) = Inr mixed_result"
  by (simp add: service_defs example_defs)

lemma mixed_pdf_run:
  "categorizePdfStatement parse_examples ''JVBERi0=''
     (Resolved [TextBlock (''Here: '' @ mixed_json @ '' Done.'')]) = Inr mixed_result"
  by (simp add: service_defs example_defs str_includes_def)

theorem categories_closed_under_repair_witness:
  "categorizeTransactions parse_examples example_transactions
     (Resolved [TextBlock (''Here: '' @ mixed_json @ '' Done.'')]) = Inr mixed_result
   \<and> categorizePdfStatement parse_examples ''JVBERi0=''
     (Resolved [TextBlock (''Here: '' @ mixed_json @ '' Done.'')]) = Inr mixed_result
   \<and> field mixed_value ''categories''
       = JArr [JObj [(''description'', JStr ''Tesco''), (''category'', JStr ''Groceries'')],
               JObj [(''description'', JStr ''Gym''), (''category'', JStr ''groceries'')]]
   \<and> field mixed_result ''categories''
       = JArr [JObj [(''description'', JStr ''Tesco''), (''category'', JStr ''Groceries'')],
               JObj [(''description'', JStr ''Gym''), (''category'', JStr ''Other'')]]
   \<and> (\<exists>out. field mixed_result ''categories'' = JArr out \<and> length out = 2
        \<and> field (out ! 0) ''category'' = JStr ''Groceries''
        \<and> field (out ! 1) ''category'' = JStr ''Other'')
   \<and> revalidate (JObj [(''description'', JStr ''Tesco''), (''category'', JStr ''Groceries'')])
        = Inr (JObj [(''description'', JStr ''Tesco''), (''category'', JStr ''Groceries'')])
   \<and> revalidate (JObj [(''description'', JStr ''Gym''), (''category'', JStr ''groceries'')])
        = Inr (JObj [(''description'', JStr ''Gym''), (''category'', JStr ''Other'')])"
proof -
  have p: "parse_examples mixed_json = Inr mixed_value"
    by (simp add: example_defs)
  have c: "field mixed_value ''categories''
       = JArr [JObj [(''description'', JStr ''Tesco''), (''category'', JStr ''Groceries'')],
               JObj [(''description'', JStr ''Gym''), (''category'', JStr ''groceries'')]]"
    by (simp add: mixed_value_def)
  have r1: "revalidate (JObj [(''description'', JStr ''Tesco''), (''category'', JStr ''Groceries'')])
        = Inr (JObj [(''description'', JStr ''Tesco''), (''category'', JStr ''Groceries'')])"
    by (simp add: revalidate_def VALID_CATEGORIES_def)
  have r2: "revalidate (JObj [(''description'', JStr ''Gym''), (''category'', JStr ''groceries'')])
        = Inr (JObj [(''description'', JStr ''Gym''), (''category'', JStr ''Other'')])"
    by (simp add: revalidate_def VALID_CATEGORIES_def)
  have f: "field mixed_result ''categories''
       = JArr [JObj [(''description'', JStr ''Tesco''), (''category'', JStr ''Groceries'')],
               JObj [(''description'', JStr ''Gym''), (''category'', JStr ''Other'')]]"
    by (simp add: mixed_result_def)
  show ?thesis
    using categories_closed_under_repair
      [where parse = parse_examples and transactions = example_transactions
         and api = "Resolved [TextBlock (''Here: '' @ mixed_json @ '' Done.'')]"
         and result = mixed_result and pdf = "''JVBERi0=''"
         and response = "''Here: '' @ mixed_json @ '' Done.''" and m = mixed_json
         and v = mixed_value and rest = "[]" and repaired = mixed_result
         and parsed = "[JObj [(''description'', JStr ''Tesco''), (''category'', JStr ''Groceries'')],
               JObj [(''description'', JStr ''Gym''), (''category'', JStr ''groceries'')]]"
         and cat = "JObj [(''description'', JStr ''Gym''), (''category'', JStr ''groceries'')]"
         and cat' = "JObj [(''description'', JStr ''Gym''), (''category'', JStr ''Other'')]"]
      mixed_match mixed_text_run mixed_pdf_run p c r1 r2 f
    by simp
qed

lemma relabelled_run:
  "categorizeTransactions parse_examples example_transactions
     (Resolved [TextBlock (''Here: '' @ relabelled_json @ '' Done.'')]) = Inr relabelled_result"
  by (simp add: service_defs example_defs)

text \<open>
  Claim C3. Whenever either entry point returns a result, its \<^verbatim>\<open>insights\<close> is a list of
  at least three elements.
\<close>

theorem insights_at_least_three:
  "categorizeTransactions parse transactions api = Inr result
     \<or> categorizePdfStatement parse pdf api = Inr result \<Longrightarrow>
   \<exists>xs. field result ''insights'' = JArr xs \<and> 3 \<le> length xs"
  using categorizeTransactions_Inr categorizePdfStatement_Inr repaired_insights by blast

theorem insights_at_least_three_witness:
  "categorizeTransactions parse_examples example_transactions
     (Resolved [TextBlock (''Here: '' @ relabelled_json @ '' Done.'')]) = Inr relabelled_result
   \<and> field relabelled_value ''insights'' = JArr [JStr ''One'']
   \<and> (\<exists>xs. field relabelled_result ''insights'' = JArr xs \<and> 3 \<le> length xs)"
  using insights_at_least_three [OF disjI1, OF relabelled_run] relabelled_run
  by (simp add: relabelled_value_def)

section \<open>Short insights\<close>

lemma ensure_insights_short:
  assumes "\<forall>xs. field (JObj kvs) ''insights'' = JArr xs \<longrightarrow> length xs < 3"
  shows "ensure_insights (JObj kvs) = JObj (AList.update ''insights'' (JArr generic_insights) kvs)"
  using assms by (auto simp: ensure_insights_def split: jsval.splits option.splits)

text \<open>
  Claim C5. When the \<^verbatim>\<open>insights\<close> of a parsed object are missing, not a list, or a list of
  fewer than three elements, the repair sets them to exactly the three generic insights:
  nothing of the model's list remains. This holds of the step by itself, of validation and
  repair as a whole, and of both entry points on a response that parses to the object.
\<close>

theorem short_insights_replaced_wholesale:
  assumes "\<forall>xs. field (JObj kvs) ''insights'' = JArr xs \<longrightarrow> length xs < 3"
  shows "ensure_insights (JObj kvs) = JObj (AList.update ''insights'' (JArr generic_insights) kvs)
    \<and> field (ensure_insights (JObj kvs)) ''insights'' = JArr generic_insights
    \<and> length generic_insights = 3
    \<and> (\<forall>r. validate_and_repair (JObj kvs) = Inr r \<longrightarrow>
          field r ''insights'' = JArr generic_insights)
    \<and> (\<forall>m r. jsonMatch text = Some m \<and> parse m = Inr (JObj kvs) \<and>
          (categorizeTransactions parse transactions (Resolved (TextBlock text # rest)) = Inr r
           \<or> categorizePdfStatement parse pdf (Resolved (TextBlock text # rest)) = Inr r)
          \<longrightarrow> field r ''insights'' = JArr generic_insights)"
proof -
  have short: "ensure_insights (JObj kvs) =
      JObj (AList.update ''insights'' (JArr generic_insights) kvs)"
    using assms by (rule ensure_insights_short)
  have repaired: "field r ''insights'' = JArr generic_insights"
    if "validate_and_repair (JObj kvs) = Inr r" for r
  proof -
    from that obtain cats' where
      r: "r = ensure_insights (JObj (AList.update ''categories'' (JArr cats') kvs))"
      by (auto simp: validate_and_repair_Inr)
    have "field (JObj (AList.update ''categories'' (JArr cats') kvs)) ''insights''
        = field (JObj kvs) ''insights''"
      by (rule field_update_other) simp
    with assms have
      "\<forall>xs. field (JObj (AList.update ''categories'' (JArr cats') kvs)) ''insights'' = JArr xs
          \<longrightarrow> length xs < 3"
      by simp
    then show ?thesis
      unfolding r by (simp only: ensure_insights_short field_update_same)
  qed
  have piped: "field r ''insights'' = JArr generic_insights"
    if "jsonMatch text = Some m \<and> parse m = Inr (JObj kvs) \<and>
          (categorizeTransactions parse transactions (Resolved (TextBlock text # rest)) = Inr r
           \<or> categorizePdfStatement parse pdf (Resolved (TextBlock text # rest)) = Inr r)"
    for m r
  proof -
    from that have "validate_and_repair (JObj kvs) = Inr r"
      by (auto simp: text_parsed pdf_parsed split: sum.splits if_splits)
    then show ?thesis by (rule repaired)
  qed
  have len: "length generic_insights = 3"
    by (simp add: generic_insights_def)
  have fld: "field (ensure_insights (JObj kvs)) ''insights'' = JArr generic_insights"
    by (simp only: short field_update_same)
  from short fld len repaired piped show ?thesis by blast
qed

theorem short_insights_replaced_wholesale_witness:
  "field relabelled_value ''insights'' = JArr [JStr ''One'']
   \<and> validate_and_repair relabelled_value = Inr relabelled_result
   \<and> field relabelled_result ''insights'' = JArr generic_insights"
proof -
  have h: "\<forall>xs. field (JObj [(''categories'',
            JArr [JObj [(''description'', JStr ''Tesco''), (''category'', JStr ''Foodstuffs'')]]),
           (''insights'', JArr [JStr ''One''])]) ''insights'' = JArr xs \<longrightarrow> length xs < 3"
    by simp
  have run: "validate_and_repair relabelled_value = Inr relabelled_result"
    by (simp add: service_defs example_defs)
  show ?thesis
    using short_insights_replaced_wholesale [OF h] run h
    by (simp add: relabelled_value_def)
qed

section \<open>Idempotence and the frame of the category repair\<close>

lemma revalidate_fixed:
  assumes "valid_category (field c ''category'')"
  shows "revalidate c = Inr c"
proof -
  from assms obtain kvs where c: "c = JObj kvs" by (cases c) auto
  with assms obtain s where "map_of kvs ''category'' = Some (JStr s)"
    by (auto simp: valid_category_iff split: option.splits)
  then have "AList.update ''category'' (field c ''category'') kvs = kvs"
    by (simp add: c update_triv)
  with assms c show ?thesis by (simp add: revalidate_def)
qed

lemma ensure_insights_obj: "\<exists>kvs'. ensure_insights (JObj kvs) = JObj kvs'"
  by (simp add: ensure_insights_def)

lemma already_valid_fixed:
  assumes "already_valid result"
  shows "validate_and_repair result = Inr result"
proof -
  from assms obtain kvs cats xs where
    r: "result = JObj kvs" and
    c: "field result ''categories'' = JArr cats" and
    v: "\<forall>cat\<in>set cats. valid_category (field cat ''category'')" and
    i: "field result ''insights'' = JArr xs" "3 \<le> length xs"
    by (auto simp: already_valid_def list_all_iff simp del: field.simps split: jsval.splits)
  from v have "map_throwing revalidate cats = Inr cats"
    by (intro map_throwing_fixed ballI revalidate_fixed) simp
  moreover from c r have "AList.update ''categories'' (JArr cats) kvs = kvs"
    by (auto intro!: update_triv split: option.splits)
  ultimately have "validate_categories result = Inr result"
    using r c by (simp add: validate_categories_Inr del: field.simps)
  moreover from i have "ensure_insights result = result"
    by (simp add: ensure_insights_def del: field.simps)
  ultimately show ?thesis by (simp add: validate_and_repair_def)
qed

lemma repaired_already_valid:
  assumes "validate_and_repair v = Inr result"
  shows "already_valid result"
proof -
  from assms obtain kvs where "result = JObj kvs"
    using ensure_insights_obj by (auto simp: validate_and_repair_Inr simp del: field.simps)
  moreover from repaired_categories [OF assms] obtain cats where
    "field result ''categories'' = JArr cats" "\<forall>c\<in>set cats. valid_category (field c ''category'')"
    by blast
  moreover from repaired_insights [OF assms] obtain xs where
    "field result ''insights'' = JArr xs" "3 \<le> length xs"
    by blast
  ultimately show ?thesis
    by (simp add: already_valid_def list_all_iff del: field.simps)
qed

text \<open>
  Claim C6. Validation and repair returns an already valid result unchanged, and what it
  returns is always already valid; so a second run changes nothing.
\<close>

theorem repair_idempotent:
  "(already_valid result \<longrightarrow> validate_and_repair result = Inr result)
   \<and> (validate_and_repair v = Inr result \<longrightarrow>
        already_valid result \<and> validate_and_repair result = Inr result)"
  using already_valid_fixed repaired_already_valid by blast

lemma relabelled_repair: "validate_and_repair relabelled_value = Inr relabelled_result"
  by (simp add: service_defs example_defs)

theorem repair_idempotent_witness:
  "already_valid relabelled_result
   \<and> validate_and_repair relabelled_result = Inr relabelled_result
   \<and> validate_and_repair relabelled_value = Inr relabelled_result
   \<and> relabelled_value \<noteq> relabelled_result"
proof -
  have a: "already_valid relabelled_result"
    by (simp add: already_valid_def relabelled_result_def generic_insights_def
          VALID_CATEGORIES_def)
  have "relabelled_value \<noteq> relabelled_result"
    by (simp add: relabelled_value_def relabelled_result_def)
  with a relabelled_repair show ?thesis
    using repair_idempotent [where result = relabelled_result and v = relabelled_value]
    by simp
qed

lemma filter_update_other:
  "filter (\<lambda>p. fst p \<noteq> k) (AList.update k v al) = filter (\<lambda>p. fst p \<noteq> k) al"
  by (induction al) auto

text \<open>
  Claim C10, amended. On a parsed categories list with no \<^verbatim>\<open>null\<close> (or \<^verbatim>\<open>undefined\<close>)
  element the category repair returns a list of the same length, in the same order. Each
  output element is an object whose properties other than \<^verbatim>\<open>category\<close> are the own
  enumerable properties of the input element (what the spread copies), with the same
  values and in the same order; for an input element that is
  an object, every field other than \<^verbatim>\<open>category\<close> reads the same before and after. The
  step stores that list as the \<^verbatim>\<open>categories\<close> of the result.
\<close>

theorem repair_preserves_other_fields:
  assumes "\<forall>c\<in>set cats. \<not> nullish c"
  shows "\<exists>out. map_throwing revalidate cats = Inr out \<and> length out = length cats \<and>
    (\<forall>i<length cats.
       filter (\<lambda>p. fst p \<noteq> ''category'') (own (out ! i))
         = filter (\<lambda>p. fst p \<noteq> ''category'') (own (cats ! i))
       \<and> (\<forall>k. k \<noteq> ''category'' \<longrightarrow> map_of (own (out ! i)) k = map_of (own (cats ! i)) k)
       \<and> (\<forall>kvs k. cats ! i = JObj kvs \<and> k \<noteq> ''category'' \<longrightarrow>
             field (out ! i) k = field (cats ! i) k))
    \<and> (\<forall>kvs. field (JObj kvs) ''categories'' = JArr cats \<longrightarrow>
          validate_categories (JObj kvs)
            = Inr (JObj (AList.update ''categories'' (JArr out) kvs)))"
proof -
  from assms have "\<forall>c\<in>set cats. \<exists>y. revalidate c = Inr y"
    by (simp add: revalidate_Inr)
  then obtain out where out: "map_throwing revalidate cats = Inr out"
    using map_throwing_total by blast
  have len: "length out = length cats"
    using out by (rule map_throwing_length)
  have elem: "filter (\<lambda>p. fst p \<noteq> ''category'') (own (out ! i))
         = filter (\<lambda>p. fst p \<noteq> ''category'') (own (cats ! i))
       \<and> (\<forall>k. k \<noteq> ''category'' \<longrightarrow> map_of (own (out ! i)) k = map_of (own (cats ! i)) k)
       \<and> (\<forall>kvs k. cats ! i = JObj kvs \<and> k \<noteq> ''category'' \<longrightarrow>
             field (out ! i) k = field (cats ! i) k)"
    if "i < length cats" for i
  proof -
    from map_throwing_nth [OF out that] obtain w where
      o: "out ! i = JObj (AList.update ''category'' w (own (cats ! i)))"
      by (auto simp: revalidate_Inr)
    show ?thesis
      unfolding o by (auto simp: filter_update_other update_conv')
  qed
  have whole: "validate_categories (JObj kvs)
            = Inr (JObj (AList.update ''categories'' (JArr out) kvs))"
    if "field (JObj kvs) ''categories'' = JArr cats" for kvs
    using that out by (simp add: validate_categories_Inr del: field.simps)
  from out len elem whole show ?thesis by blast
qed

theorem repair_preserves_other_fields_witness:
  "\<not> nullish (JObj [(''description'', JStr ''Tesco''), (''amount'', JNum (Finite (- 25))),
                     (''category'', JStr ''Foodstuffs''), (''note'', JStr ''x'')])
   \<and> map_throwing revalidate
        [JObj [(''description'', JStr ''Tesco''), (''amount'', JNum (Finite (- 25))),
               (''category'', JStr ''Foodstuffs''), (''note'', JStr ''x'')]]
      = Inr [JObj [(''description'', JStr ''Tesco''), (''amount'', JNum (Finite (- 25))),
                   (''category'', JStr ''Other''), (''note'', JStr ''x'')]]"
  using repair_preserves_other_fields
    [of "[JObj [(''description'', JStr ''Tesco''), (''amount'', JNum (Finite (- 25))),
                (''category'', JStr ''Foodstuffs''), (''note'', JStr ''x'')]]"]
  by (simp add: revalidate_def VALID_CATEGORIES_def)

lemma repair_throws_on_null:
  "\<exists>c\<in>set cats. nullish c \<Longrightarrow> \<exists>e. map_throwing revalidate cats = Inl e"
  by (rule map_throwing_throws) (auto simp: revalidate_def)

text \<open>
  Claim C10 as stated fails on the parsed list \<^verbatim>\<open>[null]\<close>: reading \<^verbatim>\<open>cat.category\<close> throws,
  so there is no output list, and the entry point fails with that message.
\<close>

theorem repair_null_element_counterexample:
  "\<not> (\<exists>out. map_throwing revalidate [JNull] = Inr out \<and> length out = length [JNull])
   \<and> validate_and_repair null_element_value = Inl (cannot_read JNull ''category'')
   \<and> categorizeTransactions parse_examples example_transactions
        (Resolved [TextBlock null_element_json])
      = Inl (''Categorization failed: '' @ cannot_read JNull ''category'')"
  by (simp add: service_defs example_defs)

section \<open>Failures\<close>

lemma str_includes_append: "str_includes (p @ s) s"
  by (simp add: str_includes_def)

text \<open>
  Claim C4, amended. When the call of the provider fails, neither entry point returns a
  result. Text mode throws \<^verbatim>\<open>Categorization failed: \<close> followed by the cause. Document mode
  throws \<^verbatim>\<open>PDF processing failed: \<close> followed by the cause, unless the cause contains
  \<^verbatim>\<open>invalid_pdf\<close>: then it throws a fixed message about an invalid PDF file, which does
  not include the cause.
\<close>

theorem provider_failure_raises:
  "categorizeTransactions parse transactions (Rejected cause)
     = Inl (''Categorization failed: '' @ cause)
   \<and> str_includes (''Categorization failed: '' @ cause) cause
   \<and> categorizePdfStatement parse pdf (Rejected cause)
       = (if str_includes cause ''invalid_pdf''
          then Inl ''Invalid PDF file. Please upload a valid bank statement PDF.''
          else Inl (''PDF processing failed: '' @ cause))
   \<and> str_includes (''PDF processing failed: '' @ cause) cause
   \<and> (str_includes cause ''invalid_pdf'' \<longrightarrow>
        \<not> str_includes ''Invalid PDF file. Please upload a valid bank statement PDF.'' cause)
   \<and> (\<nexists>result. categorizeTransactions parse transactions (Rejected cause) = Inr result)
   \<and> (\<nexists>result. categorizePdfStatement parse pdf (Rejected cause) = Inr result)"
proof (intro conjI)
  show "str_includes (''Categorization failed: '' @ cause) cause"
    and "str_includes (''PDF processing failed: '' @ cause) cause"
    by (rule str_includes_append)+
  show "str_includes cause ''invalid_pdf'' \<longrightarrow>
        \<not> str_includes ''Invalid PDF file. Please upload a valid bank statement PDF.'' cause"
  proof (intro impI notI)
    assume "str_includes cause ''invalid_pdf''"
      and "str_includes ''Invalid PDF file. Please upload a valid bank statement PDF.'' cause"
    then have "sublist ''invalid_pdf''
        ''Invalid PDF file. Please upload a valid bank statement PDF.''"
      unfolding str_includes_def by (rule sublist_order.order.trans)
    then show False by (simp add: sublist_code)
  qed
qed (simp_all add: categorizeTransactions_def categorizePdfStatement_def)

theorem provider_failure_raises_witness:
  "str_includes ''invalid_pdf: the document could not be read'' ''invalid_pdf''
   \<and> categorizePdfStatement parse_examples ''JVBERi0=''
        (Rejected ''invalid_pdf: the document could not be read'')
       = Inl ''Invalid PDF file. Please upload a valid bank statement PDF.''
   \<and> categorizeTransactions parse_examples example_transactions (Rejected ''Connection error.'')
       = Inl ''Categorization failed: Connection error.''
   \<and> categorizePdfStatement parse_examples ''JVBERi0='' (Rejected ''Connection error.'')
       = Inl ''PDF processing failed: Connection error.''"
proof -
  have a: "str_includes ''invalid_pdf: the document could not be read'' ''invalid_pdf''"
    by (simp add: str_includes_def sublist_code)
  have b: "\<not> str_includes ''Connection error.'' ''invalid_pdf''"
    by (simp add: str_includes_def sublist_code)
  show ?thesis
    using provider_failure_raises
        [of parse_examples example_transactions "''invalid_pdf: the document could not be read''"
           "''JVBERi0=''"]
      provider_failure_raises
        [of parse_examples example_transactions "''Connection error.''" "''JVBERi0=''"]
      a b
    by simp
qed

text \<open>
  Claim C4 as stated fails in document mode: for a cause that contains \<^verbatim>\<open>invalid_pdf\<close> the
  message thrown does not include the cause.
\<close>

theorem invalid_pdf_cause_counterexample:
  "categorizePdfStatement parse_examples ''JVBERi0='' (Rejected ''400 invalid_pdf'')
     = Inl ''Invalid PDF file. Please upload a valid bank statement PDF.''
   \<and> \<not> str_includes ''Invalid PDF file. Please upload a valid bank statement PDF.''
         ''400 invalid_pdf''"
  by (simp add: categorizePdfStatement_def str_includes_def sublist_code)

lemma wrong_shape_message:
  assumes "\<forall>cats. field v ''categories'' \<noteq> JArr cats"
  shows "\<exists>e. validate_categories v = Inl e \<and> \<not> str_includes e ''invalid_pdf''"
proof -
  have "validate_categories v \<in>
      {Inl (cannot_read JUndefined ''categories''), Inl (cannot_read JNull ''categories''),
       Inl (cannot_read JUndefined ''map''), Inl (cannot_read JNull ''map''),
       Inl (not_a_function ''result.categories.map'')}"
    using assms
    by (cases v; cases "field v ''categories''")
       (simp_all add: validate_categories_def del: field.simps)
  moreover have
    "\<not> str_includes (cannot_read JUndefined ''categories'') ''invalid_pdf''"
    "\<not> str_includes (cannot_read JNull ''categories'') ''invalid_pdf''"
    "\<not> str_includes (cannot_read JUndefined ''map'') ''invalid_pdf''"
    "\<not> str_includes (cannot_read JNull ''map'') ''invalid_pdf''"
    "\<not> str_includes (not_a_function ''result.categories.map'') ''invalid_pdf''"
    by (simp_all add: str_includes_def sublist_code cannot_read_def not_a_function_def)
  ultimately show ?thesis by auto
qed

lemma server_error_status: "status (server_error title e) = 500"
  by (simp add: server_error_def)

text \<open>
  Claim C9. When the response holds a region that parses, and the \<^verbatim>\<open>categories\<close> of the parsed
  value are missing or not a list, both entry points throw (the \<^verbatim>\<open>TypeError\<close> of
  \<^verbatim>\<open>result.categories.map\<close>, behind the prefix of the entry point), and both handlers answer
  with status 500. No fallback is built.
\<close>

theorem wrong_shape_raises:
  assumes "jsonMatch text = Some m" and "parse m = Inr v"
    and "\<forall>cats. field v ''categories'' \<noteq> JArr cats"
  shows "\<exists>e. validate_categories v = Inl e
    \<and> categorizeTransactions parse transactions (Resolved (TextBlock text # rest))
        = Inl (''Categorization failed: '' @ e)
    \<and> categorizePdfStatement parse pdf (Resolved (TextBlock text # rest))
        = Inl (''PDF processing failed: '' @ e)
    \<and> (\<forall>body. validate_transactions body = Inr (Proceed transactions) \<longrightarrow>
          post_categorize parse body (Resolved (TextBlock text # rest))
            = server_error ''Categorization failed'' (''Categorization failed: '' @ e))
    \<and> (\<forall>body. validate_pdf body = Inr (Proceed pdf) \<longrightarrow>
          post_categorize_pdf parse body (Resolved (TextBlock text # rest))
            = server_error ''PDF categorization failed'' (''PDF processing failed: '' @ e))
    \<and> status (server_error ''Categorization failed'' (''Categorization failed: '' @ e)) = 500
    \<and> status (server_error ''PDF categorization failed'' (''PDF processing failed: '' @ e)) = 500"
proof -
  from wrong_shape_message [OF assms(3)] obtain e where
    e: "validate_categories v = Inl e" "\<not> str_includes e ''invalid_pdf''"
    by blast
  then have r: "validate_and_repair v = Inl e"
    by (simp add: validate_and_repair_def)
  have t: "categorizeTransactions parse transactions (Resolved (TextBlock text # rest))
        = Inl (''Categorization failed: '' @ e)"
    using text_parsed [where parse = parse, OF assms(1,2)] r by simp
  have p: "categorizePdfStatement parse pdf (Resolved (TextBlock text # rest))
        = Inl (''PDF processing failed: '' @ e)"
    using pdf_parsed [where parse = parse, OF assms(1,2)] r e(2) by simp
  have "post_categorize parse body (Resolved (TextBlock text # rest))
            = server_error ''Categorization failed'' (''Categorization failed: '' @ e)"
    if "validate_transactions body = Inr (Proceed transactions)" for body
    using that t by (simp add: post_categorize_def)
  moreover have "post_categorize_pdf parse body (Resolved (TextBlock text # rest))
            = server_error ''PDF categorization failed'' (''PDF processing failed: '' @ e)"
    if "validate_pdf body = Inr (Proceed pdf)" for body
    using that p by (simp add: post_categorize_pdf_def)
  ultimately show ?thesis
    using e(1) t p server_error_status by blast
qed

lemma shapeless_match:
  "jsonMatch (''Here: '' @ shapeless_json @ '' Done.'') = Some shapeless_json"
  by (simp add: shapeless_json_def)

theorem wrong_shape_raises_witness:
  "jsonMatch (''Here: '' @ shapeless_json @ '' Done.'') = Some shapeless_json
   \<and> parse_examples shapeless_json = Inr shapeless_value
   \<and> field shapeless_value ''categories'' = JUndefined
   \<and> categorizeTransactions parse_examples example_transactions
        (Resolved [TextBlock (''Here: '' @ shapeless_json @ '' Done.'')])
      = Inl (''Categorization failed: '' @ cannot_read JUndefined ''map'')
   \<and> categorizePdfStatement parse_examples ''JVBERi0=''
        (Resolved [TextBlock (''Here: '' @ shapeless_json @ '' Done.'')])
      = Inl (''PDF processing failed: '' @ cannot_read JUndefined ''map'')"
proof -
  have p: "parse_examples shapeless_json = Inr shapeless_value"
    by (simp add: example_defs)
  have f: "\<forall>cats. field shapeless_value ''categories'' \<noteq> JArr cats"
    by (simp add: shapeless_value_def)
  have v: "validate_categories shapeless_value = Inl (cannot_read JUndefined ''map'')"
    by (simp add: validate_categories_def shapeless_value_def)
  show ?thesis
    using wrong_shape_raises [where parse = parse_examples and transactions = example_transactions
        and rest = "[]" and pdf = "''JVBERi0=''", OF shapeless_match p f]
      shapeless_match p v
    by (auto simp: shapeless_value_def)
qed

section \<open>The extractor\<close>

lemma jsonMatch_region: "jsonMatch text = Some m \<longleftrightarrow> bracketed_region text m"
proof
  assume "jsonMatch text = Some m"
  then obtain pre mid post where
    "text = pre @ m @ post" "m = CHR ''{'' # mid" "CHR ''{'' \<notin> set pre" "mid \<noteq> []"
    "last mid = CHR ''}''" "CHR ''}'' \<notin> set post"
    by (auto simp: jsonMatch_Some)
  then show "bracketed_region text m"
    unfolding bracketed_region_def by (rule region_to_indices)
next
  assume "bracketed_region text m"
  then obtain i j where "i < j" "j < length text" "text ! i = CHR ''{''"
    "\<forall>k<i. text ! k \<noteq> CHR ''{''" "text ! j = CHR ''}''"
    "\<forall>k. j < k \<and> k < length text \<longrightarrow> text ! k \<noteq> CHR ''}''" "m = take (j + 1 - i) (drop i text)"
    unfolding bracketed_region_def by blast
  then have "\<exists>pre mid post. text = pre @ m @ post \<and> m = CHR ''{'' # mid \<and> CHR ''{'' \<notin> set pre \<and>
      mid \<noteq> [] \<and> last mid = CHR ''}'' \<and> CHR ''}'' \<notin> set post"
    by (rule indices_to_region)
  then show "jsonMatch text = Some m" by (simp only: jsonMatch_Some)
qed

text \<open>
  Claim C7. The match of the regular expression is the substring from the first opening
  brace to the last closing brace of the text, and there is no match exactly when there is
  no such region. The extraction returns what \<^verbatim>\<open>JSON.parse\<close> returns on that substring, and
  fails exactly when there is no region or \<^verbatim>\<open>JSON.parse\<close> throws on it. Both entry points
  run these same lines.
\<close>

theorem extractor_first_to_last:
  "(jsonMatch text = Some m \<longleftrightarrow> bracketed_region text m)
   \<and> (jsonMatch text = None \<longleftrightarrow> (\<forall>m. \<not> bracketed_region text m))
   \<and> (extractJson parse (Some text) = Inr v \<longleftrightarrow>
        (\<exists>m. bracketed_region text m \<and> parse m = Inr v))
   \<and> ((\<exists>e. extractJson parse (Some text) = Inl e) \<longleftrightarrow>
        (\<forall>m. \<not> bracketed_region text m) \<or> (\<exists>m e. bracketed_region text m \<and> parse m = Inl e))"
proof (intro conjI)
  show "jsonMatch text = Some m \<longleftrightarrow> bracketed_region text m"
    by (rule jsonMatch_region)
  show none: "jsonMatch text = None \<longleftrightarrow> (\<forall>m. \<not> bracketed_region text m)"
    by (simp flip: jsonMatch_region)
  show "extractJson parse (Some text) = Inr v \<longleftrightarrow>
        (\<exists>m. bracketed_region text m \<and> parse m = Inr v)"
    by (cases "jsonMatch text") (simp_all add: extractJson_def flip: jsonMatch_region)
  show "(\<exists>e. extractJson parse (Some text) = Inl e) \<longleftrightarrow>
        (\<forall>m. \<not> bracketed_region text m) \<or> (\<exists>m e. bracketed_region text m \<and> parse m = Inl e)"
    by (cases "jsonMatch text") (simp_all add: extractJson_def flip: jsonMatch_region)
qed

theorem extractor_first_to_last_witness:
  "jsonMatch ''So {a} is {b} or } not {'' = Some ''{a} is {b} or }''
   \<and> bracketed_region ''So {a} is {b} or } not {'' ''{a} is {b} or }''
   \<and> jsonMatch ''} before {'' = None
   \<and> extractJson parse_examples (Some ''}{ no'') = Inl ''No JSON found in response''
   \<and> extractJson parse_examples (Some ''{truncated}'') = Inl ''Unexpected token''"
proof -
  have "jsonMatch ''So {a} is {b} or } not {'' = Some ''{a} is {b} or }''"
    by simp
  moreover have "jsonMatch ''} before {'' = None"
    by simp
  moreover have "extractJson parse_examples (Some ''}{ no'') = Inl ''No JSON found in response''"
    by (simp add: extractJson_def)
  moreover have "extractJson parse_examples (Some ''{truncated}'') = Inl ''Unexpected token''"
    by (simp add: extractJson_def example_defs)
  ultimately show ?thesis
    using extractor_first_to_last
      [of "''So {a} is {b} or } not {''" "''{a} is {b} or }''" parse_examples]
    by simp
qed

section \<open>Extraction failure\<close>

lemma echo_total:
  "\<forall>t\<in>set ts. \<not> nullish t \<Longrightarrow>
     map_throwing echo ts =
       Inr (map (\<lambda>t. JObj [(''description'', field t ''description''),
                            (''amount'', field t ''amount''),
                            (''date'', field t ''date''),
                            (''category'', JStr ''Other'')]) ts)"
  by (induction ts) (simp_all add: echo_def)

lemma revalidate_echo_obj:
  "revalidate (JObj [(''description'', d), (''amount'', a), (''date'', dt),
                     (''category'', JStr ''Other'')]) =
   Inr (JObj [(''description'', d), (''amount'', a), (''date'', dt),
              (''category'', JStr ''Other'')])"
  by (simp add: revalidate_def VALID_CATEGORIES_def)

lemma revalidate_echoed:
  "map_throwing revalidate
     (map (\<lambda>t. JObj [(''description'', field t ''description''),
                      (''amount'', field t ''amount''),
                      (''date'', field t ''date''),
                      (''category'', JStr ''Other'')]) ts) =
   Inr (map (\<lambda>t. JObj [(''description'', field t ''description''),
                      (''amount'', field t ''amount''),
                      (''date'', field t ''date''),
                      (''category'', JStr ''Other'')]) ts)"
  by (rule map_throwing_fixed) (auto simp: revalidate_echo_obj simp del: field.simps)

lemma extraction_failed:
  assumes "jsonMatch text = None \<or> (\<exists>m e. jsonMatch text = Some m \<and> parse m = Inl e)"
  shows "\<exists>e. extractJson parse (Some text) = Inl e"
  using assms by (auto simp: extractJson_def)

lemma text_mode_fallback:
  assumes "jsonMatch text = None \<or> (\<exists>m e. jsonMatch text = Some m \<and> parse m = Inl e)"
    and "\<forall>t\<in>set ts. \<not> nullish t"
  shows "categorizeTransactions parse (JArr ts) (Resolved (TextBlock text # rest)) =
     Inr (JObj [(''categories'',
                 JArr (map (\<lambda>t. JObj [(''description'', field t ''description''),
                                       (''amount'', field t ''amount''),
                                       (''date'', field t ''date''),
                                       (''category'', JStr ''Other'')]) ts)),
                (''insights'', JArr text_fallback_insights)])"
proof -
  from extraction_failed [OF assms(1)] obtain e where
    "extractJson parse (Some text) = Inl e" by blast
  then have "text_result parse (JArr ts) (Some text) =
     Inr (JObj [(''categories'',
                 JArr (map (\<lambda>t. JObj [(''description'', field t ''description''),
                                       (''amount'', field t ''amount''),
                                       (''date'', field t ''date''),
                                       (''category'', JStr ''Other'')]) ts)),
                (''insights'', JArr text_fallback_insights)])"
    by (simp add: text_result_def text_fallback_def echo_total [OF assms(2)])
  then show ?thesis
    by (simp add: categorizeTransactions_def validate_and_repair_def validate_categories_def
          revalidate_echoed ensure_insights_def text_fallback_insights_def)
qed

lemma pdf_mode_fallback:
  assumes "jsonMatch text = None \<or> (\<exists>m e. jsonMatch text = Some m \<and> parse m = Inl e)"
  shows "categorizePdfStatement parse pdf (Resolved (TextBlock text # rest)) = Inr pdf_fallback"
proof -
  from extraction_failed [OF assms(1)] obtain e where
    "extractJson parse (Some text) = Inl e" by blast
  then have "pdf_result parse (Some text) = Inr pdf_fallback"
    by (simp add: pdf_result_def)
  then show ?thesis
    by (simp add: categorizePdfStatement_def validate_and_repair_def validate_categories_def
          ensure_insights_def pdf_fallback_def pdf_fallback_insights_def)
qed

lemma fallback_insights_distinct:
  "length text_fallback_insights = 3 \<and> length pdf_fallback_insights = 3
   \<and> text_fallback_insights \<noteq> pdf_fallback_insights
   \<and> text_fallback_insights \<noteq> generic_insights
   \<and> pdf_fallback_insights \<noteq> generic_insights"
  by (simp add: text_fallback_insights_def pdf_fallback_insights_def generic_insights_def)

lemma check_transactions_passed:
  "check_transactions ts = Inr None \<Longrightarrow> \<forall>t\<in>set ts. \<not> nullish t"
  by (induction ts) (auto split: if_splits simp del: field.simps)

lemma validate_transactions_proceeds:
  assumes "validate_transactions body = Inr (Proceed transactions)"
  shows "\<exists>ts. transactions = JArr ts \<and> (\<forall>t\<in>set ts. \<not> nullish t)"
proof (cases "field body ''transactions''")
  case (JArr ts)
  with assms have "check_transactions ts = Inr None" and "transactions = JArr ts"
    by (auto simp: validate_transactions_def
             split: if_splits sum.splits option.splits simp del: field.simps)
  then show ?thesis by (auto dest: check_transactions_passed)
qed (use assms in \<open>auto simp: validate_transactions_def split: if_splits simp del: field.simps\<close>)

text \<open>
  Claim C1. When no region can be located in the response, or \<^verbatim>\<open>JSON.parse\<close> throws on the
  region, neither entry point throws. Text mode returns every input transaction echoed
  with its description, amount and date and the category \<^verbatim>\<open>Other\<close>, plus the three
  text-mode fallback insights; this holds for every transactions array without a \<^verbatim>\<open>null\<close>
  element, hence for every request that passes the validation of the route, which then
  answers with that result. Document mode returns an empty categories list plus its own
  three fallback insights, which differ from those of text mode.
\<close>

theorem extraction_failure_falls_back:
  assumes "jsonMatch response = None \<or> (\<exists>m e. jsonMatch response = Some m \<and> parse m = Inl e)"
  shows "(\<forall>ts. (\<forall>t\<in>set ts. \<not> nullish t) \<longrightarrow>
            categorizeTransactions parse (JArr ts) (Resolved (TextBlock response # rest)) =
              Inr (JObj [(''categories'',
                          JArr (map (\<lambda>t. JObj [(''description'', field t ''description''),
                                                (''amount'', field t ''amount''),
                                                (''date'', field t ''date''),
                                                (''category'', JStr ''Other'')]) ts)),
                         (''insights'', JArr text_fallback_insights)]))
     \<and> (\<forall>body transactions.
            validate_transactions body = Inr (Proceed transactions) \<longrightarrow>
            (\<exists>ts. transactions = JArr ts \<and>
               post_categorize parse body (Resolved (TextBlock response # rest)) =
                 ok (JObj [(''categories'',
                            JArr (map (\<lambda>t. JObj [(''description'', field t ''description''),
                                                  (''amount'', field t ''amount''),
                                                  (''date'', field t ''date''),
                                                  (''category'', JStr ''Other'')]) ts)),
                           (''insights'', JArr text_fallback_insights)])))
     \<and> categorizePdfStatement parse pdf (Resolved (TextBlock response # rest)) = Inr pdf_fallback
     \<and> (\<forall>body. validate_pdf body = Inr (Proceed pdf) \<longrightarrow>
            post_categorize_pdf parse body (Resolved (TextBlock response # rest))
              = ok pdf_fallback)
     \<and> field pdf_fallback ''categories'' = JArr []
     \<and> field pdf_fallback ''insights'' = JArr pdf_fallback_insights
     \<and> length text_fallback_insights = 3 \<and> length pdf_fallback_insights = 3
     \<and> text_fallback_insights \<noteq> pdf_fallback_insights"
proof (intro conjI allI impI)
  fix ts assume "\<forall>t\<in>set ts. \<not> nullish t"
  with assms show "categorizeTransactions parse (JArr ts) (Resolved (TextBlock response # rest)) =
              Inr (JObj [(''categories'',
                          JArr (map (\<lambda>t. JObj [(''description'', field t ''description''),
                                                (''amount'', field t ''amount''),
                                                (''date'', field t ''date''),
                                                (''category'', JStr ''Other'')]) ts)),
                         (''insights'', JArr text_fallback_insights)])"
    by (rule text_mode_fallback)
next
  fix body transactions
  assume v: "validate_transactions body = Inr (Proceed transactions)"
  then obtain ts where ts: "transactions = JArr ts" "\<forall>t\<in>set ts. \<not> nullish t"
    using validate_transactions_proceeds by blast
  have "post_categorize parse body (Resolved (TextBlock response # rest)) =
                 ok (JObj [(''categories'',
                            JArr (map (\<lambda>t. JObj [(''description'', field t ''description''),
                                                  (''amount'', field t ''amount''),
                                                  (''date'', field t ''date''),
                                                  (''category'', JStr ''Other'')]) ts)),
                           (''insights'', JArr text_fallback_insights)])"
    using v ts(1) text_mode_fallback [OF assms ts(2), of rest]
    by (simp add: post_categorize_def)
  with ts(1) show "\<exists>ts. transactions = JArr ts \<and>
               post_categorize parse body (Resolved (TextBlock response # rest)) =
                 ok (JObj [(''categories'',
                            JArr (map (\<lambda>t. JObj [(''description'', field t ''description''),
                                                  (''amount'', field t ''amount''),
                                                  (''date'', field t ''date''),
                                                  (''category'', JStr ''Other'')]) ts)),
                           (''insights'', JArr text_fallback_insights)])"
    by blast
next
  show p: "categorizePdfStatement parse pdf (Resolved (TextBlock response # rest)) = Inr pdf_fallback"
    using assms by (rule pdf_mode_fallback)
  fix body assume "validate_pdf body = Inr (Proceed pdf)"
  with p show "post_categorize_pdf parse body (Resolved (TextBlock response # rest))
              = ok pdf_fallback"
    by (simp add: post_categorize_pdf_def)
next
  show "field pdf_fallback ''categories'' = JArr []"
    and "field pdf_fallback ''insights'' = JArr pdf_fallback_insights"
    by (simp_all add: pdf_fallback_def)
  show "length text_fallback_insights = 3" and "length pdf_fallback_insights = 3"
    and "text_fallback_insights \<noteq> pdf_fallback_insights"
    using fallback_insights_distinct by simp_all
qed

theorem extraction_failure_falls_back_witness:
  "jsonMatch ''I cannot help with that.'' = None
   \<and> jsonMatch ''{truncated}'' = Some ''{truncated}''
   \<and> parse_examples ''{truncated}'' = Inl ''Unexpected token''
   \<and> validate_transactions (JObj [(''transactions'', example_transactions)])
       = Inr (Proceed example_transactions)
   \<and> post_categorize parse_examples (JObj [(''transactions'', example_transactions)])
        (Resolved [TextBlock ''I cannot help with that.''])
       = ok (JObj [(''categories'',
              JArr [JObj [(''description'', JStr ''Tesco''), (''amount'', JNum (Finite (- 25))),
                          (''date'', JUndefined), (''category'', JStr ''Other'')],
                    JObj [(''description'', JStr ''Salary''), (''amount'', JNum (Finite 3000)),
                          (''date'', JStr ''01-02-2025''), (''category'', JStr ''Other'')]]),
             (''insights'', JArr text_fallback_insights)])
   \<and> categorizeTransactions parse_examples example_transactions (Resolved [TextBlock ''{truncated}''])
       = Inr (JObj [(''categories'',
              JArr [JObj [(''description'', JStr ''Tesco''), (''amount'', JNum (Finite (- 25))),
                          (''date'', JUndefined), (''category'', JStr ''Other'')],
                    JObj [(''description'', JStr ''Salary''), (''amount'', JNum (Finite 3000)),
                          (''date'', JStr ''01-02-2025''), (''category'', JStr ''Other'')]]),
             (''insights'', JArr text_fallback_insights)])
   \<and> categorizePdfStatement parse_examples ''JVBERi0='' (Resolved [TextBlock ''{truncated}''])
       = Inr pdf_fallback"
proof -
  have a: "jsonMatch ''I cannot help with that.'' = None" by simp
  have b: "jsonMatch ''{truncated}'' = Some ''{truncated}''" by simp
  have c: "parse_examples ''{truncated}'' = Inl ''Unexpected token''"
    by (simp add: example_defs)
  have v: "validate_transactions (JObj [(''transactions'', example_transactions)])
       = Inr (Proceed example_transactions)"
    by (simp add: validate_transactions_def example_transactions_def)
  have h1: "jsonMatch ''I cannot help with that.'' = None
      \<or> (\<exists>m e. jsonMatch ''I cannot help with that.'' = Some m \<and> parse_examples m = Inl e)"
    using a by simp
  have h2: "jsonMatch ''{truncated}'' = None
      \<or> (\<exists>m e. jsonMatch ''{truncated}'' = Some m \<and> parse_examples m = Inl e)"
    using b c by simp
  have n: "\<forall>t\<in>set [JObj [(''description'', JStr ''Tesco''), (''amount'', JNum (Finite (- 25)))],
           JObj [(''description'', JStr ''Salary''), (''amount'', JNum (Finite 3000)),
                 (''date'', JStr ''01-02-2025'')]]. \<not> nullish t"
    by simp
  note prose = extraction_failure_falls_back [OF h1, where rest = "[]" and pdf = "''JVBERi0=''"]
  note braces = extraction_failure_falls_back [OF h2, where rest = "[]" and pdf = "''JVBERi0=''"]
  from prose v have "\<exists>ts. example_transactions = JArr ts \<and>
      post_categorize parse_examples (JObj [(''transactions'', example_transactions)])
        (Resolved [TextBlock ''I cannot help with that.'']) =
      ok (JObj [(''categories'',
                 JArr (map (\<lambda>t. JObj [(''description'', field t ''description''),
                                       (''amount'', field t ''amount''),
                                       (''date'', field t ''date''),
                                       (''category'', JStr ''Other'')]) ts)),
                (''insights'', JArr text_fallback_insights)])"
    by blast
  then have p: "post_categorize parse_examples (JObj [(''transactions'', example_transactions)])
        (Resolved [TextBlock ''I cannot help with that.''])
       = ok (JObj [(''categories'',
              JArr [JObj [(''description'', JStr ''Tesco''), (''amount'', JNum (Finite (- 25))),
                          (''date'', JUndefined), (''category'', JStr ''Other'')],
                    JObj [(''description'', JStr ''Salary''), (''amount'', JNum (Finite 3000)),
                          (''date'', JStr ''01-02-2025''), (''category'', JStr ''Other'')]]),
             (''insights'', JArr text_fallback_insights)])"
    by (auto simp: example_transactions_def)
  from braces n have "categorizeTransactions parse_examples
        (JArr [JObj [(''description'', JStr ''Tesco''), (''amount'', JNum (Finite (- 25)))],
           JObj [(''description'', JStr ''Salary''), (''amount'', JNum (Finite 3000)),
                 (''date'', JStr ''01-02-2025'')]])
        (Resolved [TextBlock ''{truncated}'']) =
      Inr (JObj [(''categories'',
                 JArr (map (\<lambda>t. JObj [(''description'', field t ''description''),
                                       (''amount'', field t ''amount''),
                                       (''date'', field t ''date''),
                                       (''category'', JStr ''Other'')])
                   [JObj [(''description'', JStr ''Tesco''), (''amount'', JNum (Finite (- 25)))],
                    JObj [(''description'', JStr ''Salary''), (''amount'', JNum (Finite 3000)),
                          (''date'', JStr ''01-02-2025'')]])),
                (''insights'', JArr text_fallback_insights)])"
    by blast
  then have q: "categorizeTransactions parse_examples example_transactions
        (Resolved [TextBlock ''{truncated}''])
       = Inr (JObj [(''categories'',
              JArr [JObj [(''description'', JStr ''Tesco''), (''amount'', JNum (Finite (- 25))),
                          (''date'', JUndefined), (''category'', JStr ''Other'')],
                    JObj [(''description'', JStr ''Salary''), (''amount'', JNum (Finite 3000)),
                          (''date'', JStr ''01-02-2025''), (''category'', JStr ''Other'')]]),
             (''insights'', JArr text_fallback_insights)])"
    by (simp add: example_transactions_def)
  from braces have r: "categorizePdfStatement parse_examples ''JVBERi0=''
      (Resolved [TextBlock ''{truncated}'']) = Inr pdf_fallback"
    by blast
  from a b c v p q r show ?thesis by blast
qed

text \<open>
  The routes import claudeService.js. The older copy of the function in unnamed/part_000
  has no fallback and throws on the same responses.
\<close>

lemma part_000_extraction_failure:
  "jsonMatch text = None \<Longrightarrow>
     categorizeTransactions_part_000 parse transactions (Resolved (TextBlock text # rest))
       = Inl ''Categorization failed: Failed to parse Claude response as JSON''"
  "jsonMatch text = Some m \<Longrightarrow> parse m = Inl e \<Longrightarrow>
     categorizeTransactions_part_000 parse transactions (Resolved (TextBlock text # rest))
       = Inl (''Categorization failed: '' @ e)"
  by (simp_all add: categorizeTransactions_part_000_def)

section \<open>Validation of a text-mode request\<close>

lemma check_transactions_no_null:
  "\<forall>t\<in>set ts. \<not> nullish t \<Longrightarrow>
     check_transactions ts =
       Inr (if \<exists>t\<in>set ts. unacceptable t
            then Some (invalid_request
                   ''Each transaction must have description (string) and amount (number)'')
            else None)"
  by (induction ts) (auto simp: unacceptable_def simp del: field.simps)

lemma invalid_request_status: "status (invalid_request msg) = 400"
  by (simp add: invalid_request_def)

lemma validate_transactions_no_null:
  assumes "\<not> nullish body"
    and "\<forall>ts. field body ''transactions'' = JArr ts \<longrightarrow> (\<forall>t\<in>set ts. \<not> nullish t)"
  shows "validate_transactions body =
     (case field body ''transactions'' of
        JArr ts \<Rightarrow>
          if ts = [] then Inr (Respond (invalid_request ''transactions array cannot be empty''))
          else if 1000 < length ts
          then Inr (Respond (invalid_request ''Maximum 1000 transactions allowed per request''))
          else if \<exists>t\<in>set ts. unacceptable t
          then Inr (Respond (invalid_request
                 ''Each transaction must have description (string) and amount (number)''))
          else Inr (Proceed (JArr ts))
      | _ \<Rightarrow> Inr (Respond (invalid_request ''transactions array is required'')))"
  using assms
  by (cases "field body ''transactions''")
     (simp_all add: validate_transactions_def check_transactions_no_null del: field.simps)

lemma validation_rejects_iff:
  assumes "\<not> nullish body"
    and "\<forall>ts. field body ''transactions'' = JArr ts \<longrightarrow> (\<forall>t\<in>set ts. \<not> nullish t)"
  shows "(\<exists>r. validate_transactions body = Inr (Respond r) \<and> status r = 400
              \<and> post_categorize parse body api = r) \<longleftrightarrow>
         ((\<forall>ts. field body ''transactions'' \<noteq> JArr ts)
          \<or> (\<exists>ts. field body ''transactions'' = JArr ts \<and>
                (ts = [] \<or> 1000 < length ts \<or> (\<exists>t\<in>set ts. unacceptable t))))"
    and "(\<exists>ts. validate_transactions body = Inr (Proceed (JArr ts))) \<longleftrightarrow>
         \<not> ((\<forall>ts. field body ''transactions'' \<noteq> JArr ts)
          \<or> (\<exists>ts. field body ''transactions'' = JArr ts \<and>
                (ts = [] \<or> 1000 < length ts \<or> (\<exists>t\<in>set ts. unacceptable t))))"
  by (cases "field body ''transactions''";
      simp add: validate_transactions_no_null [OF assms] post_categorize_def
        invalid_request_status del: field.simps)+

text \<open>
  Claim C8. Apart from a \<^verbatim>\<open>null\<close> element the validation does what the claim says
  (\<open>validation_rejects_iff\<close>). On the body \<^verbatim>\<open>{"transactions":[null]}\<close> the loop throws when it
  reads \<^verbatim>\<open>transaction.description\<close>, and the handler answers with status 500, not 400;
  the service is not called.
\<close>

theorem null_transaction_server_error:
  "validate_transactions (JObj [(''transactions'', JArr [JNull])])
     = Inl (cannot_read JNull ''description'')
   \<and> post_categorize parse (JObj [(''transactions'', JArr [JNull])]) api
       = server_error ''Categorization failed'' (cannot_read JNull ''description'')
   \<and> status (post_categorize parse (JObj [(''transactions'', JArr [JNull])]) api) = 500"
  by (simp add: validate_transactions_def post_categorize_def server_error_def)

end
